theory Spec2Isabelle
  imports Complex_Main "HOL-Library.Word"
begin

unbundle bit_operations_syntax

section \<open>Session configuration: the hype modifier (constants.ts)\<close>

text \<open>
  \<^verbatim>\<open>HYPE_MODIFIER\<close> takes the hype level, a JavaScript number that the range input
  of the home screen keeps between 0 and 100, and returns the sentence appended to the
  system instruction. The level is modelled as a real number; the two comparisons are
  those of the source, in the source's order.
\<close>

definition calm_modifier :: string where
  "calm_modifier = '' Keep it calm.''"

definition maximum_modifier :: string where
  "maximum_modifier = '' MAXIMUM VOLUME AND SPEED.''"

definition balanced_modifier :: string where
  "balanced_modifier = '' Balanced energy.''"

definition HYPE_MODIFIER :: "real \<Rightarrow> string" where
  "HYPE_MODIFIER level =
     (if level < 30 then calm_modifier
      else if level > 70 then maximum_modifier
      else balanced_modifier)"

section \<open>The PCM encoder (GeminiLiveService.createPcmData)\<close>

text \<open>
  The microphone samples are the elements of a \<^verbatim>\<open>Float32Array\<close>. A JavaScript number
  is a finite value, one of the two infinities, or NaN. Every finite 32-bit float has a
  24-bit significand, so its products with \<^verbatim>\<open>0x8000\<close> and \<^verbatim>\<open>0x7FFF\<close> are exact
  in double precision: on finite values the arithmetic of the encoder is arithmetic on
  real numbers. The sign of zero is not modelled; it has no effect on the result.
\<close>

datatype jsnum = NaN | NegInf | Fin real | PosInf

text \<open>\<^verbatim>\<open>Math.min\<close> and \<^verbatim>\<open>Math.max\<close> return NaN as soon as one argument is NaN.\<close>

fun Math_min :: "jsnum \<Rightarrow> jsnum \<Rightarrow> jsnum" where
  "Math_min NaN _ = NaN"
| "Math_min _ NaN = NaN"
| "Math_min NegInf _ = NegInf"
| "Math_min _ NegInf = NegInf"
| "Math_min PosInf b = b"
| "Math_min a PosInf = a"
| "Math_min (Fin a) (Fin b) = Fin (min a b)"

fun Math_max :: "jsnum \<Rightarrow> jsnum \<Rightarrow> jsnum" where
  "Math_max NaN _ = NaN"
| "Math_max _ NaN = NaN"
| "Math_max PosInf _ = PosInf"
| "Math_max _ PosInf = PosInf"
| "Math_max NegInf b = b"
| "Math_max a NegInf = a"
| "Math_max (Fin a) (Fin b) = Fin (max a b)"

text \<open>The comparison \<^verbatim>\<open><\<close> is false whenever an operand is NaN.\<close>

fun js_less :: "jsnum \<Rightarrow> jsnum \<Rightarrow> bool" where
  "js_less NaN _ = False"
| "js_less _ NaN = False"
| "js_less (Fin a) (Fin b) = (a < b)"
| "js_less NegInf b = (b \<noteq> NegInf)"
| "js_less a PosInf = (a \<noteq> PosInf)"
| "js_less _ _ = False"

fun js_negative :: "jsnum \<Rightarrow> bool" where
  "js_negative NegInf = True"
| "js_negative (Fin a) = (a < 0)"
| "js_negative _ = False"

fun js_times :: "jsnum \<Rightarrow> jsnum \<Rightarrow> jsnum" where
  "js_times NaN _ = NaN"
| "js_times _ NaN = NaN"
| "js_times (Fin a) (Fin b) = Fin (a * b)"
| "js_times a b =
     (if a = Fin 0 \<or> b = Fin 0 then NaN
      else if js_negative a = js_negative b then PosInf else NegInf)"

text \<open>Truncation towards zero, the integer part taken by every typed-array store.\<close>

definition js_trunc :: "real \<Rightarrow> int" where
  "js_trunc x = (if x < 0 then \<lceil>x\<rceil> else \<lfloor>x\<rfloor>)"

text \<open>
  Storing a number into an \<^verbatim>\<open>Int16Array\<close> element applies ToInt16: NaN and the
  infinities become 0, a finite value is truncated towards zero and reduced modulo
  \<open>2 ^ 16\<close>, which is what \<^const>\<open>word_of_int\<close> does.
\<close>

fun ToInt16 :: "jsnum \<Rightarrow> 16 word" where
  "ToInt16 (Fin x) = word_of_int (js_trunc x)"
| "ToInt16 _ = 0"

text \<open>The first statement of the loop body: \<^verbatim>\<open>Math.max(-1, Math.min(1, data[i]))\<close>.\<close>

definition clamp_sample :: "jsnum \<Rightarrow> jsnum" where
  "clamp_sample x = Math_max (Fin (- 1)) (Math_min (Fin 1) x)"

text \<open>The loop body: \<^verbatim>\<open>int16[i] = s < 0 ? s * 0x8000 : s * 0x7FFF\<close>.\<close>

definition pcm_sample :: "jsnum \<Rightarrow> 16 word" where
  "pcm_sample x =
     (let s = clamp_sample x
      in ToInt16 (if js_less s (Fin 0) then js_times s (Fin 32768) else js_times s (Fin 32767)))"

text \<open>
  \<^verbatim>\<open>new Uint8Array(int16.buffer)\<close> views every element as two bytes in the byte order
  of the platform, which is little-endian on the platforms that run a browser: the low
  byte comes first.
\<close>

definition int16_bytes :: "16 word \<Rightarrow> 8 word list" where
  "int16_bytes w = [ucast w, ucast (drop_bit 8 w)]"

text \<open>
  \<^verbatim>\<open>btoa\<close> is the base64 encoder of the platform (RFC 4648, with padding). Its
  argument is a binary string, one character per byte; \<^typ>\<open>char\<close> has exactly the 256
  byte values.
\<close>

definition b64_alphabet :: string where
  "b64_alphabet = ''ABCDEFGHIJKLMNOPQRSTUVWXYZabcdefghijklmnopqrstuvwxyz0123456789+/''"

definition b64_char :: "nat \<Rightarrow> char" where
  "b64_char n = b64_alphabet ! (n mod 64)"

fun btoa :: "string \<Rightarrow> string" where
  "btoa [] = []"
| "btoa [a] =
     (let x = of_char a :: nat
      in [b64_char (x div 4), b64_char ((x mod 4) * 16), CHR ''='', CHR ''=''])"
| "btoa [a, b] =
     (let x = of_char a :: nat; y = of_char b :: nat
      in [b64_char (x div 4), b64_char ((x mod 4) * 16 + y div 16),
          b64_char ((y mod 16) * 4), CHR ''=''])"
| "btoa (a # b # c # rest) =
     (let x = of_char a :: nat; y = of_char b :: nat; z = of_char c :: nat
      in [b64_char (x div 4), b64_char ((x mod 4) * 16 + y div 16),
          b64_char ((y mod 16) * 4 + z div 64), b64_char (z mod 64)] @ btoa rest)"

text \<open>
  \<^verbatim>\<open>createPcmData\<close>: the first loop fills the \<^verbatim>\<open>Int16Array\<close>, the second builds the
  binary string with \<^verbatim>\<open>String.fromCharCode\<close>, and \<^verbatim>\<open>btoa\<close> encodes it.
\<close>

definition createPcmData :: "jsnum list \<Rightarrow> string" where
  "createPcmData data =
     (let int16 = map pcm_sample data;
          bytes = concat (map int16_bytes int16);
          binary = map (\<lambda>b. char_of (unat b)) bytes
      in btoa binary)"

section \<open>The live service (GeminiLiveService): state, effects and control flow\<close>

text \<open>
  Times on the clock of the output device (\<^verbatim>\<open>AudioContext.currentTime\<close>, buffer
  durations, the playback cursor) are modelled as real numbers. A method of the service
  is modelled as one step: what the method does when no other call runs between its
  awaits. \<^verbatim>\<open>connect\<close> and \<^verbatim>\<open>disconnect\<close> are also given in the segments between
  their awaits, for the runs in which one overtakes the other. The value \<open>now\<close> that a
  step takes is the reading of \<^verbatim>\<open>audioContext.currentTime\<close> during that step.
\<close>

datatype AudioContextState = Suspended | Running | Closed

record audio_context =
  ctx_state :: AudioContextState

record gain_node =
  gain_value :: real

record analyser_node =
  fftSize :: nat

record audio_buffer =
  duration :: real

text \<open>
  An \<^verbatim>\<open>AudioBufferSourceNode\<close> created by the scheduler: its buffer's duration, the
  time given to \<^verbatim>\<open>start\<close>, and whether \<^verbatim>\<open>stop\<close> has been called on it. The
  nodes live in a store indexed by creation order; \<^verbatim>\<open>activeSources\<close> holds indices.
\<close>

record buffer_source =
  bufferDuration :: real
  startTime :: real
  stopCalled :: bool

record media_stream =
  tracks :: "nat list"

record live_session =
  closeIsFunction :: bool

text \<open>Which of the optional callbacks of \<^verbatim>\<open>LiveServiceCallbacks\<close> the caller supplied.\<close>

record callbacks =
  onOpen :: bool
  onClose :: bool
  onError :: bool
  onAudioData :: bool
  onInputAudioData :: bool
  onSubtitle :: bool
  onResponse :: bool
  onLog :: bool

text \<open>Everything the service does to the outside world, in the order it happens.\<close>

datatype effect =
    ConsoleLog string
  | ConsoleError string
  | CbLog string
  | CbOpen
  | CbClose
  | CbError string
  | CbAudioData
  | CbInputAudioData
  | CbSubtitle string
  | CbResponse
  | LiveConnect string
  | SendRealtimeInput string string
  | TrackStop nat
  | InputContextClose
  | SessionClose
  | OutputContextClose
  | ContextResume

record service =
  callbacks :: callbacks
  session :: "live_session option"
  audioContext :: "audio_context option"
  audioQueueNextStartTime :: real
  gainNode :: "gain_node option"
  analyserNode :: "analyser_node option"
  isConnected :: bool
  activeSources :: "nat list"
  inputAudioContext :: "audio_context option"
  inputMediaStream :: "media_stream option"
  inputProcessor :: "unit option"
  inputSource :: "unit option"
  inputAnalyser :: "analyser_node option"
  nodes :: "buffer_source list"
  trace :: "effect list"

text \<open>The field initialisers and the constructor.\<close>

definition new_service :: "callbacks \<Rightarrow> service" where
  "new_service cbs =
     \<lparr>callbacks = cbs, session = None, audioContext = None, audioQueueNextStartTime = 0,
      gainNode = None, analyserNode = None, isConnected = False, activeSources = [],
      inputAudioContext = None, inputMediaStream = None, inputProcessor = None,
      inputSource = None, inputAnalyser = None, nodes = [], trace = []\<rparr>"

text \<open>
  What the platform and the remote service answer. \<^verbatim>\<open>decodeBase64\<close> and
  \<^verbatim>\<open>decodeAudioData\<close> come from \<^verbatim>\<open>utils/audioUtils\<close>; their composition is the
  parameter \<open>decodeAudio\<close>, \<open>None\<close> when either throws. A constructor or a promise
  that fails gives \<open>Inl\<close> with the message of the error.
\<close>

record env =
  decodeAudio :: "string \<Rightarrow> audio_buffer option"
  newAudioContext :: "string + audio_context"
  liveConnect :: "string + live_session"
  getUserMedia :: "string + media_stream"
  newInputAudioContext :: "string + audio_context"
  inputContextCloseFails :: bool
  sessionCloseFails :: bool
  outputContextCloseFails :: bool
  sendRealtimeInputFails :: bool
  resumeSucceeds :: bool

text \<open>
  A statement runs on the state and either completes or throws; the assignments made
  before a throw stay made.
\<close>

datatype outcome = Normal | Thrown string

type_synonym stmt = "service \<Rightarrow> outcome \<times> service"

definition skip :: stmt where
  "skip s = (Normal, s)"

definition throw_error :: "string \<Rightarrow> stmt" where
  "throw_error e s = (Thrown e, s)"

definition seq :: "stmt \<Rightarrow> stmt \<Rightarrow> stmt" where
  "seq a b s = (case a s of (Normal, s') \<Rightarrow> b s' | (Thrown e, s') \<Rightarrow> (Thrown e, s'))"

fun block :: "stmt list \<Rightarrow> stmt" where
  "block [] = skip"
| "block (c # cs) = seq c (block cs)"

definition try_catch :: "stmt \<Rightarrow> (string \<Rightarrow> stmt) \<Rightarrow> stmt" where
  "try_catch a h s = (case a s of (Normal, s') \<Rightarrow> (Normal, s') | (Thrown e, s') \<Rightarrow> h e s')"

definition if_else :: "(service \<Rightarrow> bool) \<Rightarrow> stmt \<Rightarrow> stmt \<Rightarrow> stmt" where
  "if_else c a b s = (if c s then a s else b s)"

definition if_then :: "(service \<Rightarrow> bool) \<Rightarrow> stmt \<Rightarrow> stmt" where
  "if_then c a = if_else c a skip"

definition modify :: "(service \<Rightarrow> service) \<Rightarrow> stmt" where
  "modify f s = (Normal, f s)"

definition emit :: "effect \<Rightarrow> stmt" where
  "emit e = modify (\<lambda>s. s\<lparr>trace := trace s @ [e]\<rparr>)"

text \<open>\<^verbatim>\<open>xs.forEach(f)\<close>: in order, and a throw of \<open>f\<close> ends the loop.\<close>

fun for_each :: "('a \<Rightarrow> stmt) \<Rightarrow> 'a list \<Rightarrow> stmt" where
  "for_each f [] = skip"
| "for_each f (x # xs) = seq (f x) (for_each f xs)"

text \<open>
  A call of an async method whose promise is not awaited. The callee is given by its
  first segment, which runs up to its first await and says where it is suspended; the
  caller goes on from the state of that moment, and sees neither the rest of the callee
  nor a rejection.
\<close>

definition unawaited :: "(service \<Rightarrow> 'p \<times> service) \<Rightarrow> stmt" where
  "unawaited a s = (Normal, snd (a s))"

text \<open>\<^verbatim>\<open>log\<close>: the console, then the \<^verbatim>\<open>onLog\<close> callback when there is one.\<close>

definition log_msg :: "string \<Rightarrow> stmt" where
  "log_msg msg =
     block [emit (ConsoleLog (''[GeminiLive] '' @ msg)),
            if_then (\<lambda>s. onLog (callbacks s)) (emit (CbLog msg))]"

section \<open>The output audio scheduler (GeminiLiveService.handleMessage)\<close>

text \<open>
  The part of \<^verbatim>\<open>handleMessage\<close> that runs once a payload has been decoded: create
  the source node, move a cursor that lies behind the clock up to the clock, start the
  node at the cursor, advance the cursor by the buffer's duration, and push the node on
  \<^verbatim>\<open>activeSources\<close>. The sum that advances the cursor is taken exactly here, which
  serves for the statements about the order of the times; \<open>scheduleUnit_double\<close> below
  is the same step with the sum rounded as the platform rounds it.
\<close>

definition scheduleUnit :: "real \<Rightarrow> audio_buffer \<Rightarrow> service \<Rightarrow> service" where
  "scheduleUnit currentTime audioBuffer s =
     (let source = length (nodes s);
          s1 = (if audioQueueNextStartTime s < currentTime
                then s\<lparr>audioQueueNextStartTime := currentTime\<rparr> else s);
          s2 = s1\<lparr>nodes := nodes s1 @
                 [\<lparr>bufferDuration = duration audioBuffer,
                   startTime = audioQueueNextStartTime s1, stopCalled = False\<rparr>]\<rparr>;
          s3 = s2\<lparr>audioQueueNextStartTime := audioQueueNextStartTime s2 + duration audioBuffer\<rparr>
      in s3\<lparr>activeSources := activeSources s3 @ [source]\<rparr>)"

text \<open>
  The \<^verbatim>\<open>onended\<close> handler of a source: \<^verbatim>\<open>indexOf\<close> and \<^verbatim>\<open>splice\<close> take its first
  occurrence out of \<^verbatim>\<open>activeSources\<close>, and do nothing when it is not there.
\<close>

definition source_onended :: "nat \<Rightarrow> stmt" where
  "source_onended source = modify (\<lambda>s. s\<lparr>activeSources := remove1 source (activeSources s)\<rparr>)"

text \<open>
  \<^verbatim>\<open>source.stop()\<close>. The platform throws when the node was never started; every node
  of the store was started when it was created, so only a reference outside the store
  throws.
\<close>

definition source_stop :: "nat \<Rightarrow> stmt" where
  "source_stop source s =
     (if source < length (nodes s)
      then (Normal, s\<lparr>nodes := (nodes s)[source := (nodes s ! source)\<lparr>stopCalled := True\<rparr>]\<rparr>)
      else (Thrown ''InvalidStateError'', s))"

text \<open>\<^verbatim>\<open>this.activeSources.forEach(source => { try { source.stop(); } catch(e) {} })\<close>\<close>

definition stop_active_sources :: stmt where
  "stop_active_sources s =
     for_each (\<lambda>source. try_catch (source_stop source) (\<lambda>e. skip)) (activeSources s) s"

definition decode_and_schedule :: "env \<Rightarrow> real \<Rightarrow> string \<Rightarrow> stmt" where
  "decode_and_schedule env currentTime base64Audio =
     (case decodeAudio env base64Audio of
        None \<Rightarrow> throw_error ''decode''
      | Some audioBuffer \<Rightarrow> modify (scheduleUnit currentTime audioBuffer))"

text \<open>
  An inbound message, reduced to the three things \<^verbatim>\<open>handleMessage\<close> reads through
  optional chaining. A string that is absent and a string that is empty are both falsy,
  so both are the empty string here.
\<close>

record server_message =
  inlineData :: string
  transcriptionText :: string
  interrupted :: bool

text \<open>The three numbered parts of \<^verbatim>\<open>handleMessage\<close>, in the order of the source.\<close>

definition handle_audio_output :: "env \<Rightarrow> real \<Rightarrow> server_message \<Rightarrow> stmt" where
  "handle_audio_output env currentTime message =
     if_then (\<lambda>s. inlineData message \<noteq> [])
       (block
         [log_msg ''Received Audio Chunk'',
          if_then (\<lambda>s. audioContext s \<noteq> None \<and> gainNode s \<noteq> None)
            (try_catch (decode_and_schedule env currentTime (inlineData message))
               (\<lambda>e. block [emit (ConsoleError ''Error decoding audio''),
                            log_msg ''Error decoding audio chunk'']))])"

definition handle_text :: "server_message \<Rightarrow> stmt" where
  "handle_text message =
     if_then (\<lambda>s. transcriptionText message \<noteq> [])
       (if_then (\<lambda>s. onSubtitle (callbacks s)) (emit (CbSubtitle (transcriptionText message))))"

definition handle_interruption :: "real \<Rightarrow> server_message \<Rightarrow> stmt" where
  "handle_interruption currentTime message =
     if_then (\<lambda>s. interrupted message)
       (block
         [log_msg ''Model Interrupted.'',
          stop_active_sources,
          modify (\<lambda>s. s\<lparr>activeSources := []\<rparr>),
          if_then (\<lambda>s. audioContext s \<noteq> None)
            (modify (\<lambda>s. s\<lparr>audioQueueNextStartTime := currentTime\<rparr>))])"

definition handleMessage :: "env \<Rightarrow> real \<Rightarrow> server_message \<Rightarrow> stmt" where
  "handleMessage env currentTime message =
     block
      [if_then (\<lambda>s. onResponse (callbacks s)) (emit CbResponse),
       handle_audio_output env currentTime message,
       handle_text message,
       handle_interruption currentTime message]"

text \<open>A run of the scheduling step over units that arrive one after the other.\<close>

fun scheduleUnits :: "service \<Rightarrow> (real \<times> audio_buffer) list \<Rightarrow> service" where
  "scheduleUnits s [] = s"
| "scheduleUnits s ((currentTime, audioBuffer) # units) =
     scheduleUnits (scheduleUnit currentTime audioBuffer s) units"

text \<open>
  The numbers of the program are IEEE 754 doubles. A comparison of two doubles and an
  assignment are exact, and so are the test of the scheduling step and the start time
  it gives to the node. The sum of two doubles is the exact sum rounded to the nearest
  double, and to the one with the even significand when two doubles are equally near.
  \<open>to_double\<close> is this rounding, on the reals: the doubles from \<open>2 ^ e\<close> up to
  \<open>2 ^ (e + 1)\<close> are the multiples of \<open>2 ^ (e - 52)\<close>, the unit in the last place of
  these numbers, and a number between two of them goes to the nearer one. Overflow and
  the subnormal numbers are left out: a time in seconds is far from both.
\<close>

definition round_half_even :: "real \<Rightarrow> int" where
  "round_half_even x =
     (let n = \<lfloor>x\<rfloor>
      in if x - of_int n < 1 / 2 then n
         else if 1 / 2 < x - of_int n then n + 1
         else if even n then n else n + 1)"

definition ulp :: "real \<Rightarrow> real" where
  "ulp x = 2 powr (of_int \<lfloor>log 2 \<bar>x\<bar>\<rfloor> - 52)"

definition to_double :: "real \<Rightarrow> real" where
  "to_double x = (if x = 0 then 0 else of_int (round_half_even (x / ulp x)) * ulp x)"

definition double_plus :: "real \<Rightarrow> real \<Rightarrow> real" where
  "double_plus a b = to_double (a + b)"

text \<open>A real number that is a double: the rounding leaves it as it is.\<close>

definition is_double :: "real \<Rightarrow> bool" where
  "is_double x = (to_double x = x)"

text \<open>
  The scheduling step with the sum of the cursor and the duration rounded as the
  platform rounds it. \<open>scheduleUnit\<close> takes this sum exactly; the two steps give the
  node the same start time, and the cursors they leave differ by the rounding of the
  sum. A run of this step over units that arrive one after the other.
\<close>

definition scheduleUnit_double :: "real \<Rightarrow> audio_buffer \<Rightarrow> service \<Rightarrow> service" where
  "scheduleUnit_double currentTime audioBuffer s =
     (let source = length (nodes s);
          s1 = (if audioQueueNextStartTime s < currentTime
                then s\<lparr>audioQueueNextStartTime := currentTime\<rparr> else s);
          s2 = s1\<lparr>nodes := nodes s1 @ [\<lparr>bufferDuration = duration audioBuffer,
                                             startTime = audioQueueNextStartTime s1,
                                             stopCalled = False\<rparr>]\<rparr>;
          s3 = s2\<lparr>audioQueueNextStartTime :=
                     double_plus (audioQueueNextStartTime s2) (duration audioBuffer)\<rparr>
      in s3\<lparr>activeSources := activeSources s3 @ [source]\<rparr>)"

fun scheduleUnits_double :: "service \<Rightarrow> (real \<times> audio_buffer) list \<Rightarrow> service" where
  "scheduleUnits_double s [] = s"
| "scheduleUnits_double s ((currentTime, audioBuffer) # units) =
     scheduleUnits_double (scheduleUnit_double currentTime audioBuffer s) units"

section \<open>Muting (GeminiLiveService.mute)\<close>

definition context_suspended :: "service \<Rightarrow> bool" where
  "context_suspended s =
     (case audioContext s of None \<Rightarrow> False | Some c \<Rightarrow> ctx_state c = Suspended)"

text \<open>
  \<^verbatim>\<open>audioContext.resume()\<close>; the promise is not awaited. Whether the context starts
  running is up to the platform.
\<close>

definition context_resume :: "env \<Rightarrow> stmt" where
  "context_resume env =
     block [emit ContextResume,
            if_then (\<lambda>s. resumeSucceeds env)
              (modify (\<lambda>s. s\<lparr>audioContext := map_option (\<lambda>c. c\<lparr>ctx_state := Running\<rparr>) (audioContext s)\<rparr>))]"

definition mute :: "env \<Rightarrow> real \<Rightarrow> bool \<Rightarrow> stmt" where
  "mute env currentTime muted =
     if_then (\<lambda>s. gainNode s \<noteq> None \<and> audioContext s \<noteq> None)
       (block
         [modify (\<lambda>s. s\<lparr>gainNode := map_option (\<lambda>g. g\<lparr>gain_value := (if muted then 0 else 1)\<rparr>) (gainNode s)\<rparr>),
          if_then (\<lambda>s. \<not> muted \<and> context_suspended s) (context_resume env)])"

section \<open>Outbound audio and frames\<close>

definition sendRealtimeInput :: "env \<Rightarrow> string \<Rightarrow> string \<Rightarrow> stmt" where
  "sendRealtimeInput env mimeType data =
     block [emit (SendRealtimeInput mimeType data),
            if_then (\<lambda>s. sendRealtimeInputFails env) (throw_error ''send failed'')]"

text \<open>The \<^verbatim>\<open>onaudioprocess\<close> handler that \<^verbatim>\<open>startAudioInput\<close> installs.\<close>

definition onaudioprocess :: "env \<Rightarrow> jsnum list \<Rightarrow> stmt" where
  "onaudioprocess env inputData =
     if_else (\<lambda>s. \<not> isConnected s \<or> session s = None) skip
       (sendRealtimeInput env ''audio/pcm;rate=16000'' (createPcmData inputData))"

definition sendVideoFrame :: "env \<Rightarrow> string \<Rightarrow> stmt" where
  "sendVideoFrame env base64Data =
     if_else (\<lambda>s. \<not> isConnected s \<or> session s = None) skip
       (try_catch (sendRealtimeInput env ''image/jpeg'' base64Data)
          (\<lambda>e. log_msg (''Error sending frame: '' @ e)))"

section \<open>Teardown (GeminiLiveService.disconnect)\<close>

definition release_input_stream :: stmt where
  "release_input_stream s =
     (case inputMediaStream s of
        None \<Rightarrow> skip s
      | Some stream \<Rightarrow>
          block [for_each (\<lambda>t. emit (TrackStop t)) (tracks stream),
                 modify (\<lambda>s. s\<lparr>inputMediaStream := None\<rparr>)] s)"

definition close_input_context :: "env \<Rightarrow> stmt" where
  "close_input_context env =
     if_then (\<lambda>s. inputAudioContext s \<noteq> None)
       (block
         [try_catch
            (block [emit InputContextClose,
                    if_then (\<lambda>s. inputContextCloseFails env) (throw_error ''InvalidStateError'')])
            (\<lambda>e. skip),
          modify (\<lambda>s. s\<lparr>inputAudioContext := None\<rparr>)])"

definition session_has_close :: "service \<Rightarrow> bool" where
  "session_has_close s =
     (case session s of None \<Rightarrow> False | Some live \<Rightarrow> closeIsFunction live)"

definition close_session :: "env \<Rightarrow> stmt" where
  "close_session env =
     if_then (\<lambda>s. session s \<noteq> None)
       (block
         [try_catch
            (block [log_msg ''Closing session...'',
                    if_then session_has_close
                      (block [emit SessionClose,
                              if_then (\<lambda>s. sessionCloseFails env) (throw_error ''close failed'')])])
            (\<lambda>e. emit (ConsoleError ''Error closing Live session'')),
          modify (\<lambda>s. s\<lparr>session := None\<rparr>)])"

definition close_output_context :: "env \<Rightarrow> stmt" where
  "close_output_context env =
     if_then (\<lambda>s. audioContext s \<noteq> None)
       (block
         [try_catch
            (block [emit OutputContextClose,
                    if_then (\<lambda>s. outputContextCloseFails env) (throw_error ''InvalidStateError'')])
            (\<lambda>e. emit (ConsoleError ''Error closing audio context'')),
          modify (\<lambda>s. s\<lparr>audioContext := None\<rparr>)])"

definition disconnect :: "env \<Rightarrow> stmt" where
  "disconnect env =
     block
      [modify (\<lambda>s. s\<lparr>isConnected := False\<rparr>),
       stop_active_sources,
       modify (\<lambda>s. s\<lparr>activeSources := []\<rparr>),
       release_input_stream,
       close_input_context env,
       close_session env,
       close_output_context env]"

text \<open>
  \<^verbatim>\<open>disconnect\<close> is an async method with three awaits: on the close of the input
  context, on the close of the session, and on the close of the output context. Between
  two awaits it runs without interruption; at an await it is suspended until the close
  has settled, and other calls on the service can run in between. A segment returns the
  await at which the method is suspended next (or nothing when it has returned) and the
  state of that moment. A close that fails is seen when the method is resumed, in the
  \<^verbatim>\<open>catch\<close> block around the await.
\<close>

datatype await_point = AwaitInputClose | AwaitSessionClose | AwaitOutputClose

text \<open>From the test of \<^verbatim>\<open>this.audioContext\<close> on.\<close>

definition disconnect_at_output :: "service \<Rightarrow> await_point option \<times> service" where
  "disconnect_at_output s =
     (if audioContext s \<noteq> None then (Some AwaitOutputClose, snd (emit OutputContextClose s))
      else (None, s))"

text \<open>
  From the test of \<^verbatim>\<open>this.session\<close> on; a session without a \<^verbatim>\<open>close\<close> function
  is dropped without an await.
\<close>

definition disconnect_at_session :: "service \<Rightarrow> await_point option \<times> service" where
  "disconnect_at_session s =
     (if session s \<noteq> None
      then (let s1 = snd (log_msg ''Closing session...'' s)
            in if session_has_close s1 then (Some AwaitSessionClose, snd (emit SessionClose s1))
               else disconnect_at_output (s1\<lparr>session := None\<rparr>))
      else disconnect_at_output s)"

text \<open>From the test of \<^verbatim>\<open>this.inputAudioContext\<close> on.\<close>

definition disconnect_at_input :: "service \<Rightarrow> await_point option \<times> service" where
  "disconnect_at_input s =
     (if inputAudioContext s \<noteq> None then (Some AwaitInputClose, snd (emit InputContextClose s))
      else disconnect_at_session s)"

text \<open>The call of \<^verbatim>\<open>disconnect\<close>, up to its first await.\<close>

definition disconnect_start :: "service \<Rightarrow> await_point option \<times> service" where
  "disconnect_start s =
     disconnect_at_input
       (snd (block [modify (\<lambda>s. s\<lparr>isConnected := False\<rparr>),
                    stop_active_sources,
                    modify (\<lambda>s. s\<lparr>activeSources := []\<rparr>),
                    release_input_stream] s))"

text \<open>The method resumed at an await whose close has settled, up to its next await.\<close>

fun disconnect_resume :: "env \<Rightarrow> await_point \<Rightarrow> service \<Rightarrow> await_point option \<times> service" where
  "disconnect_resume env AwaitInputClose s =
     disconnect_at_session (s\<lparr>inputAudioContext := None\<rparr>)"
| "disconnect_resume env AwaitSessionClose s =
     disconnect_at_output
       ((if sessionCloseFails env
         then snd (emit (ConsoleError ''Error closing Live session'') s) else s)
        \<lparr>session := None\<rparr>)"
| "disconnect_resume env AwaitOutputClose s =
     (None,
      (if outputContextCloseFails env
       then snd (emit (ConsoleError ''Error closing audio context'') s) else s)
      \<lparr>audioContext := None\<rparr>)"

text \<open>
  A suspended \<^verbatim>\<open>disconnect\<close> whose pending close settles, with no other call on
  the service in between; and the state in which the method returns when this happens
  at each of its awaits, of which there are at most three.
\<close>

fun disconnect_settle_one :: "env \<Rightarrow> await_point option \<times> service \<Rightarrow> await_point option \<times> service" where
  "disconnect_settle_one env (None, s) = (None, s)"
| "disconnect_settle_one env (Some awaited, s) = disconnect_resume env awaited s"

definition disconnect_settle :: "env \<Rightarrow> await_point option \<times> service \<Rightarrow> service" where
  "disconnect_settle env suspended =
     snd (disconnect_settle_one env (disconnect_settle_one env (disconnect_settle_one env suspended)))"

section \<open>Connecting (GeminiLiveService.connect, startAudioInput)\<close>

text \<open>
  \<^verbatim>\<open>startVisualizer\<close> returns at once unless the service is connected and has an
  analyser; otherwise it hands the analyser to \<^verbatim>\<open>onAudioData\<close>. Its rescheduling on
  the next animation frame is not modelled.
\<close>

definition startVisualizer :: stmt where
  "startVisualizer =
     if_else (\<lambda>s. \<not> isConnected s \<or> analyserNode s = None) skip
       (if_then (\<lambda>s. onAudioData (callbacks s)) (emit CbAudioData))"

definition acquire_microphone :: "env \<Rightarrow> stmt" where
  "acquire_microphone env =
     (case getUserMedia env of
        Inl e \<Rightarrow> throw_error e
      | Inr stream \<Rightarrow> modify (\<lambda>s. s\<lparr>inputMediaStream := Some stream\<rparr>))"

definition create_input_context :: "env \<Rightarrow> stmt" where
  "create_input_context env =
     (case newInputAudioContext env of
        Inl e \<Rightarrow> throw_error e
      | Inr c \<Rightarrow> modify (\<lambda>s. s\<lparr>inputAudioContext := Some c\<rparr>))"

definition startAudioInput :: "env \<Rightarrow> stmt" where
  "startAudioInput env =
     try_catch
       (block
         [acquire_microphone env,
          create_input_context env,
          modify (\<lambda>s. s\<lparr>inputSource := Some ()\<rparr>),
          modify (\<lambda>s. s\<lparr>inputAnalyser := Some \<lparr>fftSize = 64\<rparr>\<rparr>),
          modify (\<lambda>s. s\<lparr>inputProcessor := Some ()\<rparr>),
          if_then (\<lambda>s. onInputAudioData (callbacks s)) (emit CbInputAudioData),
          log_msg ''Microphone connected & streaming.''])
       (\<lambda>e. log_msg ''Microphone access denied or error. (Check permissions)'')"

definition create_output_context :: "env \<Rightarrow> stmt" where
  "create_output_context env =
     (case newAudioContext env of
        Inl e \<Rightarrow> throw_error e
      | Inr c \<Rightarrow> modify (\<lambda>s. s\<lparr>audioContext := Some c\<rparr>))"

definition open_session :: "env \<Rightarrow> string \<Rightarrow> stmt" where
  "open_session env systemInstruction =
     block [emit (LiveConnect systemInstruction),
            (case liveConnect env of
               Inl e \<Rightarrow> throw_error e
             | Inr live \<Rightarrow> modify (\<lambda>s. s\<lparr>session := Some live\<rparr>))]"

text \<open>The \<^verbatim>\<open>try\<close> block of \<^verbatim>\<open>connect\<close>, its \<^verbatim>\<open>catch\<close> block, and the method.\<close>

definition connect_try :: "env \<Rightarrow> string \<Rightarrow> stmt" where
  "connect_try env systemInstruction =
     block
      [log_msg ''Initializing Audio Context...'',
       create_output_context env,
       modify (\<lambda>s. s\<lparr>gainNode := Some \<lparr>gain_value = 1\<rparr>\<rparr>),
       modify (\<lambda>s. s\<lparr>analyserNode := Some \<lparr>fftSize = 256\<rparr>\<rparr>),
       startVisualizer,
       log_msg ''Connecting to Gemini Live API...'',
       open_session env systemInstruction,
       startAudioInput env]"

definition connect_catch :: "env \<Rightarrow> string \<Rightarrow> stmt" where
  "connect_catch env e =
     block
      [log_msg (''Connection Failed: '' @ e),
       if_then (\<lambda>s. onError (callbacks s)) (emit (CbError e)),
       unawaited disconnect_start]"

definition connect :: "env \<Rightarrow> string \<Rightarrow> stmt" where
  "connect env systemInstruction =
     try_catch (connect_try env systemInstruction) (connect_catch env)"

text \<open>
  \<^verbatim>\<open>connect\<close> awaits the session, and \<^verbatim>\<open>startAudioInput\<close> awaits the microphone.
  \<open>request_session\<close> is the \<^verbatim>\<open>try\<close> block up to the first await and
  \<open>session_settled\<close> the assignment that follows it. The three segments of the method,
  each with the \<^verbatim>\<open>catch\<close> block around it: up to the request for the session, from
  the answer to the request for the microphone, and from that answer to the end.
\<close>

definition request_session :: "env \<Rightarrow> string \<Rightarrow> stmt" where
  "request_session env systemInstruction =
     block
      [log_msg ''Initializing Audio Context...'',
       create_output_context env,
       modify (\<lambda>s. s\<lparr>gainNode := Some \<lparr>gain_value = 1\<rparr>\<rparr>),
       modify (\<lambda>s. s\<lparr>analyserNode := Some \<lparr>fftSize = 256\<rparr>\<rparr>),
       startVisualizer,
       log_msg ''Connecting to Gemini Live API...'',
       emit (LiveConnect systemInstruction)]"

definition session_settled :: "env \<Rightarrow> stmt" where
  "session_settled env =
     (case liveConnect env of
        Inl e \<Rightarrow> throw_error e
      | Inr live \<Rightarrow> modify (\<lambda>s. s\<lparr>session := Some live\<rparr>))"

definition connect_begin :: "env \<Rightarrow> string \<Rightarrow> stmt" where
  "connect_begin env systemInstruction =
     try_catch (request_session env systemInstruction) (connect_catch env)"

definition connect_session :: "env \<Rightarrow> stmt" where
  "connect_session env = try_catch (session_settled env) (connect_catch env)"

definition connect_microphone :: "env \<Rightarrow> stmt" where
  "connect_microphone env = try_catch (startAudioInput env) (connect_catch env)"

text \<open>The handlers the service gives to the channel.\<close>

definition session_onopen :: stmt where
  "session_onopen =
     block [modify (\<lambda>s. s\<lparr>isConnected := True\<rparr>),
            log_msg ''Session Opened.'',
            if_then (\<lambda>s. onOpen (callbacks s)) (emit CbOpen)]"

definition session_onclose :: stmt where
  "session_onclose =
     block [modify (\<lambda>s. s\<lparr>isConnected := False\<rparr>),
            log_msg ''Session Closed.'',
            if_then (\<lambda>s. onClose (callbacks s)) (emit CbClose)]"

text \<open>\<^verbatim>\<open>err.message || 'Network error'\<close>: an empty message is replaced.\<close>

definition session_onerror :: "string \<Rightarrow> stmt" where
  "session_onerror message =
     block [log_msg (''Error: '' @ message),
            if_then (\<lambda>s. onError (callbacks s))
              (emit (CbError (if message = [] then ''Network error'' else message)))]"

section \<open>The video frame sampler (VideoPlayer.getFrame, LiveCaster)\<close>

text \<open>
  What \<^verbatim>\<open>getFrame\<close> reads of the player: whether the video and canvas elements are
  mounted, the ready state of the video, whether the canvas gives a 2D context, and
  whether \<^verbatim>\<open>drawImage\<close> throws (a tainted canvas).
\<close>

record video_player =
  videoMounted :: bool
  canvasMounted :: bool
  readyState :: nat
  context2d :: bool
  drawImageThrows :: bool

text \<open>
  \<^verbatim>\<open>getFrame\<close> up to its return: it resolves to null at once on each early return,
  and otherwise returns the promise that \<^verbatim>\<open>canvas.toBlob\<close> settles later, when the
  encoding is done.
\<close>

datatype frame_promise = ResolvedNull | AwaitingBlob

definition getFrame :: "video_player \<Rightarrow> frame_promise" where
  "getFrame v =
     (if \<not> videoMounted v \<or> \<not> canvasMounted v then ResolvedNull
      else if readyState v < 2 then ResolvedNull
      else if \<not> context2d v then ResolvedNull
      else if drawImageThrows v then ResolvedNull
      else AwaitingBlob)"

text \<open>
  The sampler of \<^verbatim>\<open>LiveCaster\<close>: the two refs, the interval, the calls of
  \<^verbatim>\<open>sendFrame\<close> that are waiting for their frame (each named by the number of its
  tick), the number of ticks so far, the frames handed to the service, and the counter
  \<^verbatim>\<open>framesSent\<close>.
\<close>

record frame_sampler =
  videoRef :: "video_player option"
  liveServiceRef :: bool
  frameIntervalRef :: bool
  capturing :: "nat list"
  ticks :: nat
  framesHandedOver :: "string list"
  framesSent :: nat

text \<open>The effect that starts the interval when \<^verbatim>\<open>isConnected\<close> is true, and its cleanup.\<close>

definition frame_streaming_effect :: "bool \<Rightarrow> frame_sampler \<Rightarrow> frame_sampler" where
  "frame_streaming_effect isConnectedNow f =
     (if isConnectedNow then f\<lparr>frameIntervalRef := True\<rparr> else f)"

definition frame_streaming_cleanup :: "frame_sampler \<Rightarrow> frame_sampler" where
  "frame_streaming_cleanup f = f\<lparr>frameIntervalRef := False\<rparr>"

text \<open>
  One firing of the interval: the callback calls \<^verbatim>\<open>sendFrame\<close>, which calls
  \<^verbatim>\<open>getFrame\<close> when both refs are set. The interval fires whatever became of the
  promises of the earlier firings.
\<close>

definition timer_tick :: "frame_sampler \<Rightarrow> frame_sampler" where
  "timer_tick f =
     (if \<not> frameIntervalRef f then f
      else
        (let f' = f\<lparr>ticks := Suc (ticks f)\<rparr>
         in case videoRef f of
              None \<Rightarrow> f'
            | Some v \<Rightarrow>
                if \<not> liveServiceRef f then f'
                else (case getFrame v of
                        ResolvedNull \<Rightarrow> f'
                      | AwaitingBlob \<Rightarrow> f'\<lparr>capturing := capturing f @ [ticks f]\<rparr>)))"

text \<open>
  The frame of the capture started at tick \<open>n\<close> arrives (empty for null): the call
  leaves the set of running captures and a frame that is not empty goes to
  \<^verbatim>\<open>sendVideoFrame\<close>.
\<close>

definition frame_arrived :: "nat \<Rightarrow> string \<Rightarrow> frame_sampler \<Rightarrow> frame_sampler" where
  "frame_arrived n frameBase64 f =
     (if n \<notin> set (capturing f) then f
      else
        (let f' = f\<lparr>capturing := remove1 n (capturing f)\<rparr>
         in if frameBase64 \<noteq> []
            then f'\<lparr>framesHandedOver := framesHandedOver f' @ [frameBase64],
                    framesSent := Suc (framesSent f')\<rparr>
            else f'))"

datatype sampler_event = Tick | FrameArrived nat string

fun sampler_run :: "frame_sampler \<Rightarrow> sampler_event list \<Rightarrow> frame_sampler" where
  "sampler_run f [] = f"
| "sampler_run f (Tick # es) = sampler_run (timer_tick f) es"
| "sampler_run f (FrameArrived n frameBase64 # es) = sampler_run (frame_arrived n frameBase64 f) es"

section \<open>Notions used to state the properties\<close>

text \<open>
  A unit arrives in time when the clock has not passed the cursor at its arrival; the
  run continues from the state the unit leaves behind.
\<close>

fun in_time_double :: "service \<Rightarrow> (real \<times> audio_buffer) list \<Rightarrow> bool" where
  "in_time_double s [] = True"
| "in_time_double s ((currentTime, audioBuffer) # units) =
     (currentTime \<le> audioQueueNextStartTime s
      \<and> in_time_double (scheduleUnit_double currentTime audioBuffer s) units)"

text \<open>Each node starts where the node before it ends.\<close>

fun back_to_back :: "buffer_source list \<Rightarrow> bool" where
  "back_to_back (a # b # rest) =
     (startTime b = startTime a + bufferDuration a \<and> back_to_back (b # rest))"
| "back_to_back _ = True"

text \<open>Each node has ended when any later node of the list starts.\<close>

fun no_overlap :: "buffer_source list \<Rightarrow> bool" where
  "no_overlap [] = True"
| "no_overlap (a # rest) =
     (list_all (\<lambda>b. startTime a + bufferDuration a \<le> startTime b) rest \<and> no_overlap rest)"

text \<open>Each node starts at the double nearest to the end of the node before it.\<close>

fun chained :: "buffer_source list \<Rightarrow> bool" where
  "chained (a # b # rest) =
     (startTime b = double_plus (startTime a) (bufferDuration a) \<and> chained (b # rest))"
| "chained _ = True"

text \<open>
  The most by which the rounded sum of the start and the duration of a node can differ
  from the exact sum, which is the end of the node: half a unit in the last place.
\<close>

definition rounding :: "buffer_source \<Rightarrow> real" where
  "rounding a = \<bar>startTime a + bufferDuration a\<bar> / 2 ^ 53"

text \<open>Each node starts where the node before it ends, up to that rounding.\<close>

fun nearly_back_to_back :: "buffer_source list \<Rightarrow> bool" where
  "nearly_back_to_back (a # b # rest) =
     (\<bar>startTime b - (startTime a + bufferDuration a)\<bar> \<le> rounding a
      \<and> nearly_back_to_back (b # rest))"
| "nearly_back_to_back _ = True"

text \<open>
  No later node of the list starts before a node has ended, up to the rounding of the
  end of that node.
\<close>

fun overlap_bounded :: "buffer_source list \<Rightarrow> bool" where
  "overlap_bounded [] = True"
| "overlap_bounded (a # rest) =
     (list_all (\<lambda>b. startTime a + bufferDuration a - rounding a \<le> startTime b) rest
      \<and> overlap_bounded rest)"

text \<open>
  The nodes of durations \<open>ds\<close> laid end to end from time \<open>c\<close> with rounded sums, and
  the cursor after them.
\<close>

fun chain_double :: "real \<Rightarrow> real list \<Rightarrow> buffer_source list" where
  "chain_double c [] = []"
| "chain_double c (d # ds) =
     \<lparr>bufferDuration = d, startTime = c, stopCalled = False\<rparr> # chain_double (double_plus c d) ds"

fun cursor_after :: "real \<Rightarrow> real list \<Rightarrow> real" where
  "cursor_after c [] = c"
| "cursor_after c (d # ds) = cursor_after (double_plus c d) ds"

text \<open>The store after \<^verbatim>\<open>stop\<close> has been tried on each of the given references.\<close>

fun mark_stopped :: "nat list \<Rightarrow> buffer_source list \<Rightarrow> buffer_source list" where
  "mark_stopped [] ns = ns"
| "mark_stopped (i # is) ns =
     mark_stopped is (if i < length ns then ns[i := (ns ! i)\<lparr>stopCalled := True\<rparr>] else ns)"

text \<open>Every reference held in \<^verbatim>\<open>activeSources\<close> points into the store.\<close>

definition active_valid :: "service \<Rightarrow> bool" where
  "active_valid s = list_all (\<lambda>i. i < length (nodes s)) (activeSources s)"

text \<open>
  The calls the application and the platform can make on a service, whole methods as
  well as the segments of \<^verbatim>\<open>connect\<close> and \<^verbatim>\<open>disconnect\<close>, and the state they lead
  to from a given one.
\<close>

datatype operation =
    OpConnect env string
  | OpDisconnect env
  | OpMessage env real server_message
  | OpSourceEnded nat
  | OpMute env real bool
  | OpAudioProcess env "jsnum list"
  | OpVideoFrame env string
  | OpSessionOpen
  | OpSessionClose
  | OpSessionError string
  | OpConnectBegin env string
  | OpConnectSession env
  | OpConnectMicrophone env
  | OpDisconnectStart
  | OpDisconnectResume env await_point

fun perform :: "operation \<Rightarrow> stmt" where
  "perform (OpConnect env systemInstruction) = connect env systemInstruction"
| "perform (OpDisconnect env) = disconnect env"
| "perform (OpMessage env currentTime message) = handleMessage env currentTime message"
| "perform (OpSourceEnded source) = source_onended source"
| "perform (OpMute env currentTime muted) = mute env currentTime muted"
| "perform (OpAudioProcess env inputData) = onaudioprocess env inputData"
| "perform (OpVideoFrame env base64Data) = sendVideoFrame env base64Data"
| "perform OpSessionOpen = session_onopen"
| "perform OpSessionClose = session_onclose"
| "perform (OpSessionError message) = session_onerror message"
| "perform (OpConnectBegin env systemInstruction) = connect_begin env systemInstruction"
| "perform (OpConnectSession env) = connect_session env"
| "perform (OpConnectMicrophone env) = connect_microphone env"
| "perform OpDisconnectStart = unawaited disconnect_start"
| "perform (OpDisconnectResume env awaited) = (\<lambda>s. (Normal, snd (disconnect_resume env awaited s)))"

fun run_ops :: "service \<Rightarrow> operation list \<Rightarrow> service" where
  "run_ops s [] = s"
| "run_ops s (operation # rest) = run_ops (snd (perform operation s)) rest"

text \<open>What one call of \<^verbatim>\<open>log\<close> adds to the trace.\<close>

definition log_effects :: "callbacks \<Rightarrow> string \<Rightarrow> effect list" where
  "log_effects cbs msg =
     ConsoleLog (''[GeminiLive] '' @ msg) # (if onLog cbs then [CbLog msg] else [])"

text \<open>The effects a step added to the trace.\<close>

definition new_effects :: "service \<Rightarrow> service \<Rightarrow> effect list" where
  "new_effects s s' = drop (length (trace s)) (trace s')"

fun is_error_callback :: "effect \<Rightarrow> bool" where
  "is_error_callback (CbError _) = True"
| "is_error_callback _ = False"

fun is_teardown :: "effect \<Rightarrow> bool" where
  "is_teardown (TrackStop _) = True"
| "is_teardown InputContextClose = True"
| "is_teardown SessionClose = True"
| "is_teardown OutputContextClose = True"
| "is_teardown _ = False"

text \<open>The service holds no resource.\<close>

definition released :: "service \<Rightarrow> bool" where
  "released s =
     (\<not> isConnected s \<and> activeSources s = [] \<and> inputMediaStream s = None
      \<and> inputAudioContext s = None \<and> session s = None \<and> audioContext s = None)"

text \<open>
  The state after the first part of \<^verbatim>\<open>handleMessage\<close>, and the state in which its
  third part starts, written out.
\<close>

definition after_audio :: "env \<Rightarrow> real \<Rightarrow> server_message \<Rightarrow> service \<Rightarrow> service" where
  "after_audio env now message s =
     (if inlineData message = [] then s
      else if audioContext s = None \<or> gainNode s = None
      then s\<lparr>trace := trace s @ log_effects (callbacks s) ''Received Audio Chunk''\<rparr>
      else (case decodeAudio env (inlineData message) of
              None \<Rightarrow> s\<lparr>trace := trace s @ log_effects (callbacks s) ''Received Audio Chunk''
                          @ [ConsoleError ''Error decoding audio'']
                          @ log_effects (callbacks s) ''Error decoding audio chunk''\<rparr>
            | Some b \<Rightarrow> scheduleUnit now b
                 (s\<lparr>trace := trace s @ log_effects (callbacks s) ''Received Audio Chunk''\<rparr>)))"

definition before_interruption :: "env \<Rightarrow> real \<Rightarrow> server_message \<Rightarrow> service \<Rightarrow> service" where
  "before_interruption env now message s =
     (let s0 = (if onResponse (callbacks s) then s\<lparr>trace := trace s @ [CbResponse]\<rparr> else s);
          s1 = after_audio env now message s0
      in if transcriptionText message \<noteq> [] \<and> onSubtitle (callbacks s1)
         then s1\<lparr>trace := trace s1 @ [CbSubtitle (transcriptionText message)]\<rparr> else s1)"

text \<open>What \<^verbatim>\<open>disconnect\<close> adds to the trace when it runs in state \<open>s\<close>.\<close>

definition teardown_effects :: "env \<Rightarrow> service \<Rightarrow> effect list" where
  "teardown_effects env s =
     (case inputMediaStream s of None \<Rightarrow> [] | Some stream \<Rightarrow> map TrackStop (tracks stream))
     @ (if inputAudioContext s \<noteq> None then [InputContextClose] else [])
     @ (if session s \<noteq> None
        then log_effects (callbacks s) ''Closing session...''
             @ (if session_has_close s
                then SessionClose #
                     (if sessionCloseFails env then [ConsoleError ''Error closing Live session''] else [])
                else [])
        else [])
     @ (if audioContext s \<noteq> None
        then OutputContextClose #
             (if outputContextCloseFails env then [ConsoleError ''Error closing audio context''] else [])
        else [])"

text \<open>
  What \<^verbatim>\<open>disconnect\<close> adds to the trace up to its first await, when it is called
  in state \<open>s\<close>: the stops of the tracks, and the first close that it awaits.
\<close>

definition teardown_start_effects :: "service \<Rightarrow> effect list" where
  "teardown_start_effects s =
     (case inputMediaStream s of None \<Rightarrow> [] | Some stream \<Rightarrow> map TrackStop (tracks stream))
     @ (if inputAudioContext s \<noteq> None then [InputContextClose]
        else if session s \<noteq> None
        then log_effects (callbacks s) ''Closing session...''
             @ (if session_has_close s then [SessionClose]
                else if audioContext s \<noteq> None then [OutputContextClose] else [])
        else if audioContext s \<noteq> None then [OutputContextClose] else [])"

text \<open>The state after \<^verbatim>\<open>mute\<close>, written out.\<close>

definition after_mute :: "env \<Rightarrow> bool \<Rightarrow> service \<Rightarrow> service" where
  "after_mute env muted s =
     (if gainNode s = None \<or> audioContext s = None then s
      else
        (let s1 = s\<lparr>gainNode := map_option (\<lambda>g. g\<lparr>gain_value := (if muted then 0 else 1)\<rparr>) (gainNode s)\<rparr>
         in if \<not> muted \<and> context_suspended s
            then s1\<lparr>audioContext := (if resumeSucceeds env
                                      then map_option (\<lambda>c. c\<lparr>ctx_state := Running\<rparr>) (audioContext s)
                                      else audioContext s),
                    trace := trace s @ [ContextResume]\<rparr>
            else s1))"

text \<open>The notice \<^verbatim>\<open>startAudioInput\<close> logs when the microphone cannot be used.\<close>

definition microphone_notice :: string where
  "microphone_notice = ''Microphone access denied or error. (Check permissions)''"

text \<open>What \<^verbatim>\<open>startVisualizer\<close> adds to the trace.\<close>

definition visualizer_effects :: "service \<Rightarrow> effect list" where
  "visualizer_effects s =
     (if isConnected s \<and> analyserNode s \<noteq> None \<and> onAudioData (callbacks s)
      then [CbAudioData] else [])"

text \<open>
  The state of \<^verbatim>\<open>connect\<close> just before it asks for the session, once the output
  context \<open>c\<close> has been created.
\<close>

definition before_session :: "audio_context \<Rightarrow> service \<Rightarrow> service" where
  "before_session c s =
     s\<lparr>audioContext := Some c,
       gainNode := Some \<lparr>gain_value = 1\<rparr>,
       analyserNode := Some \<lparr>fftSize = 256\<rparr>,
       trace := trace s @ log_effects (callbacks s) ''Initializing Audio Context...''
                @ (if isConnected s \<and> onAudioData (callbacks s) then [CbAudioData] else [])
                @ log_effects (callbacks s) ''Connecting to Gemini Live API...''\<rparr>"

text \<open>
  The clamp the encoder is meant to compute, on the numbers: a finite sample is brought
  into \<open>[-1, 1]\<close>, and the infinities go to the ends of the range. NaN has no clamp; the
  value given for it is never used.
\<close>

definition clamp_real :: "jsnum \<Rightarrow> real" where
  "clamp_real x = (case x of Fin v \<Rightarrow> max (- 1) (min 1 v) | PosInf \<Rightarrow> 1 | NegInf \<Rightarrow> - 1 | NaN \<Rightarrow> 0)"

text \<open>
  The decoder of base64 (RFC 4648) on padded input, the inverse of \<^const>\<open>btoa\<close>; it
  serves to state that the encoding loses nothing.
\<close>

fun index_of :: "'a \<Rightarrow> 'a list \<Rightarrow> nat" where
  "index_of x [] = 0"
| "index_of x (y # ys) = (if x = y then 0 else Suc (index_of x ys))"

definition b64_index :: "char \<Rightarrow> nat" where
  "b64_index c = index_of c b64_alphabet"

fun atob :: "string \<Rightarrow> string" where
  "atob (a # b # c # d # rest) =
     (let i = b64_index a; j = b64_index b; k = b64_index c; l = b64_index d
      in if c = CHR ''='' then [char_of (i * 4 + j div 16)]
         else if d = CHR ''=''
         then [char_of (i * 4 + j div 16), char_of ((j mod 16) * 16 + k div 4)]
         else [char_of (i * 4 + j div 16), char_of ((j mod 16) * 16 + k div 4),
               char_of ((k mod 4) * 64 + l)] @ atob rest)"
| "atob _ = []"

text \<open>States and answers of the platform used as examples.\<close>

definition all_callbacks :: callbacks where
  "all_callbacks =
     \<lparr>onOpen = True, onClose = True, onError = True, onAudioData = True,
      onInputAudioData = True, onSubtitle = True, onResponse = True, onLog = True\<rparr>"

definition fresh_service :: service where
  "fresh_service = new_service all_callbacks"

text \<open>
  A service in the middle of a broadcast: connected, with a session, both contexts, the
  microphone, and two scheduled units of which the second is still active.
\<close>

definition streaming_service :: service where
  "streaming_service =
     fresh_service
      \<lparr>session := Some \<lparr>closeIsFunction = True\<rparr>,
       audioContext := Some \<lparr>ctx_state = Running\<rparr>,
       audioQueueNextStartTime := 5,
       gainNode := Some \<lparr>gain_value = 1\<rparr>,
       analyserNode := Some \<lparr>fftSize = 256\<rparr>,
       isConnected := True,
       activeSources := [1],
       inputAudioContext := Some \<lparr>ctx_state = Running\<rparr>,
       inputMediaStream := Some \<lparr>tracks = [0]\<rparr>,
       inputProcessor := Some (),
       inputSource := Some (),
       inputAnalyser := Some \<lparr>fftSize = 64\<rparr>,
       nodes := [\<lparr>bufferDuration = 2, startTime = 1, stopCalled = False\<rparr>,
                 \<lparr>bufferDuration = 2, startTime = 3, stopCalled = False\<rparr>]\<rparr>"

text \<open>
  The same service with its output context suspended, as a context is before the first
  user gesture.
\<close>

definition suspended_service :: service where
  "suspended_service = streaming_service\<lparr>audioContext := Some \<lparr>ctx_state = Suspended\<rparr>\<rparr>"

text \<open>
  A buffer of 2400 samples at 24000 samples a second: its duration is the double
  nearest to a tenth of a second. Five such units, which all arrive at clock reading 0.
\<close>

definition tenth :: audio_buffer where
  "tenth = \<lparr>duration = 3602879701896397 / 36028797018963968\<rparr>"

definition tenths :: "(real \<times> audio_buffer) list" where
  "tenths = [(0, tenth), (0, tenth), (0, tenth), (0, tenth), (0, tenth)]"

text \<open>A platform on which everything succeeds, and variations of it.\<close>

definition good_env :: env where
  "good_env =
     \<lparr>decodeAudio = (\<lambda>data. Some \<lparr>duration = 1\<rparr>),
      newAudioContext = Inr \<lparr>ctx_state = Suspended\<rparr>,
      liveConnect = Inr \<lparr>closeIsFunction = True\<rparr>,
      getUserMedia = Inr \<lparr>tracks = [0]\<rparr>,
      newInputAudioContext = Inr \<lparr>ctx_state = Running\<rparr>,
      inputContextCloseFails = False,
      sessionCloseFails = False,
      outputContextCloseFails = False,
      sendRealtimeInputFails = False,
      resumeSucceeds = True\<rparr>"

definition no_microphone_env :: env where
  "no_microphone_env = good_env\<lparr>getUserMedia := Inl ''Permission denied''\<rparr>"

definition no_channel_env :: env where
  "no_channel_env = good_env\<lparr>liveConnect := Inl ''Network error''\<rparr>"





text \<open>
  The broadcasting service after a \<^verbatim>\<open>disconnect\<close> during whose first await a
  message with audio was handled; and the service whose \<^verbatim>\<open>connect\<close> is waiting
  after two calls of \<^verbatim>\<open>disconnect\<close>, the second made while the first was
  suspended.
\<close>

definition audio_message :: server_message where
  "audio_message = \<lparr>inlineData = ''AAAA'', transcriptionText = [], interrupted = False\<rparr>"



definition ready_player :: video_player where
  "ready_player =
     \<lparr>videoMounted = True, canvasMounted = True, readyState = 4, context2d = True,
      drawImageThrows = False\<rparr>"

definition running_sampler :: frame_sampler where
  "running_sampler =
     \<lparr>videoRef = Some ready_player, liveServiceRef = True, frameIntervalRef = True,
      capturing = [], ticks = 0, framesHandedOver = [], framesSent = 0\<rparr>"

section \<open>Properties of the hype modifier\<close>

lemma modifiers_distinct:
  "calm_modifier \<noteq> maximum_modifier"
  "calm_modifier \<noteq> balanced_modifier"
  "maximum_modifier \<noteq> balanced_modifier"
  by (simp_all add: calm_modifier_def maximum_modifier_def balanced_modifier_def)

text \<open>
  Claim C10. The modifier is decided by the two thresholds 30 and 70: the calm modifier
  is returned exactly for the levels below 30, the maximum-energy modifier exactly for
  the levels above 70, and the balanced modifier exactly for the levels from 30 to 70,
  both ends included. The three modifiers are different texts, so every level yields
  exactly one of them.
\<close>

theorem hype_modifier_thresholds:
  "(HYPE_MODIFIER level = calm_modifier) = (level < 30)
   \<and> (HYPE_MODIFIER level = maximum_modifier) = (70 < level)
   \<and> (HYPE_MODIFIER level = balanced_modifier) = (30 \<le> level \<and> level \<le> 70)
   \<and> calm_modifier \<noteq> maximum_modifier
   \<and> calm_modifier \<noteq> balanced_modifier
   \<and> maximum_modifier \<noteq> balanced_modifier"
  using modifiers_distinct by (auto simp: HYPE_MODIFIER_def)

section \<open>Properties of the rounding to doubles\<close>

text \<open>
  The rounding moves a number by at most half a unit in the last place, which is at
  most the number divided by \<open>2 ^ 53\<close>; it keeps the order of the numbers; and it
  leaves a double as it is.
\<close>

lemma round_half_even_error: "\<bar>of_int (round_half_even y) - y\<bar> \<le> 1 / 2"
  unfolding round_half_even_def Let_def by (auto simp: abs_if) linarith+

lemma round_half_even_int [simp]: "round_half_even (of_int n) = n"
  by (simp add: round_half_even_def)

lemma binade:
  assumes "x \<noteq> 0"
  shows "2 powr (of_int \<lfloor>log 2 \<bar>x\<bar>\<rfloor>) \<le> \<bar>x\<bar>" "\<bar>x\<bar> < 2 powr (of_int \<lfloor>log 2 \<bar>x\<bar>\<rfloor> + 1)"
proof -
  have "0 < \<bar>x\<bar>" using assms by simp
  from floor_log_eq_powr_iff [OF this, of 2 "\<lfloor>log 2 \<bar>x\<bar>\<rfloor>"]
  show "2 powr (of_int \<lfloor>log 2 \<bar>x\<bar>\<rfloor>) \<le> \<bar>x\<bar>" "\<bar>x\<bar> < 2 powr (of_int \<lfloor>log 2 \<bar>x\<bar>\<rfloor> + 1)"
    by simp_all
qed

lemma to_double_error: "\<bar>to_double x - x\<bar> \<le> \<bar>x\<bar> / 2 ^ 53"
proof (cases "x = 0")
  case True
  then show ?thesis by (simp add: to_double_def)
next
  case False
  define u where "u = ulp x"
  have pos: "0 < u" by (simp add: u_def ulp_def)
  have td: "to_double x = of_int (round_half_even (x / u)) * u"
    using False by (simp add: to_double_def u_def)
  have "to_double x - x = (of_int (round_half_even (x / u)) - x / u) * u"
    using pos by (simp add: td algebra_simps)
  then have "\<bar>to_double x - x\<bar> = \<bar>of_int (round_half_even (x / u)) - x / u\<bar> * u"
    using pos by (simp add: abs_mult)
  also have "\<dots> \<le> (1 / 2) * u"
    using round_half_even_error [of "x / u"] pos by (intro mult_right_mono) simp_all
  also have "\<dots> = 2 powr (of_int \<lfloor>log 2 \<bar>x\<bar>\<rfloor>) / 2 ^ 53"
    by (simp add: u_def ulp_def powr_diff)
  also have "\<dots> \<le> \<bar>x\<bar> / 2 ^ 53"
    using binade(1) [OF False] by (simp add: divide_right_mono)
  finally show ?thesis .
qed

lemma to_double_in_binade:
  assumes "2 powr (of_int e) \<le> \<bar>x\<bar>" and "\<bar>x\<bar> < 2 powr (of_int e + 1)"
  shows "to_double x = of_int (round_half_even (x / 2 powr (of_int e - 52))) * 2 powr (of_int e - 52)"
proof -
  have "0 < \<bar>x\<bar>" using assms(1) by (smt (verit) powr_gt_zero)
  then have "\<lfloor>log 2 \<bar>x\<bar>\<rfloor> = e"
    using floor_log_eq_powr_iff [of "\<bar>x\<bar>" 2 e] assms by simp
  moreover have "x \<noteq> 0" using \<open>0 < \<bar>x\<bar>\<close> by simp
  ultimately show ?thesis by (simp add: to_double_def ulp_def)
qed

lemma round_half_even_unique:
  assumes "\<bar>of_int n - y\<bar> < 1 / 2 \<or> (\<bar>of_int n - y\<bar> = 1 / 2 \<and> even n)"
  shows "round_half_even y = n"
proof -
  have f: "of_int \<lfloor>y\<rfloor> \<le> y" "y < of_int \<lfloor>y\<rfloor> + 1" by linarith+
  from assms show ?thesis
  proof
    assume a: "\<bar>of_int n - y\<bar> < 1 / 2"
    then have "n = \<lfloor>y\<rfloor> \<or> n = \<lfloor>y\<rfloor> + 1" using f by linarith
    then show ?thesis using a f unfolding round_half_even_def Let_def by (auto; linarith)
  next
    assume a: "\<bar>of_int n - y\<bar> = 1 / 2 \<and> even n"
    then have "n = \<lfloor>y\<rfloor> \<or> n = \<lfloor>y\<rfloor> + 1" using f by linarith
    then show ?thesis using a f unfolding round_half_even_def Let_def by (auto; linarith)
  qed
qed

lemma round_half_even_mono:
  assumes "x \<le> y"
  shows "round_half_even x \<le> round_half_even y"
proof (rule ccontr)
  assume "\<not> round_half_even x \<le> round_half_even y"
  then have lt: "round_half_even y + 1 \<le> round_half_even x" by simp
  then have "of_int (round_half_even y) + (1::real) \<le> of_int (round_half_even x)"
    by (metis of_int_1 of_int_add of_int_le_iff)
  with round_half_even_error [of x] round_half_even_error [of y] assms have "x = y"
    by linarith
  with lt show False by simp
qed


lemma round_half_even_nearest:
  "\<bar>of_int (round_half_even y) - y\<bar> < 1 / 2
   \<or> (\<bar>of_int (round_half_even y) - y\<bar> = 1 / 2 \<and> even (round_half_even y))"
  unfolding round_half_even_def Let_def by (auto simp: abs_if; linarith)

lemma round_half_even_minus: "round_half_even (- y) = - round_half_even y"
proof (rule round_half_even_unique)
  have "\<bar>of_int (- round_half_even y) - (- y)\<bar> = \<bar>of_int (round_half_even y) - y\<bar>"
    by simp
  with round_half_even_nearest [of y]
  show "\<bar>of_int (- round_half_even y) - (- y)\<bar> < 1 / 2
      \<or> (\<bar>of_int (- round_half_even y) - (- y)\<bar> = 1 / 2 \<and> even (- round_half_even y))"
    by auto
qed

lemma ulp_pos: "0 < ulp x"
  by (simp add: ulp_def)

lemma ulp_minus: "ulp (- x) = ulp x"
  by (simp add: ulp_def)

lemma to_double_minus: "to_double (- x) = - to_double x"
  by (simp add: to_double_def ulp_minus round_half_even_minus)

lemma ulp_binade:
  assumes "0 < x"
  shows "2 ^ 52 * ulp x \<le> x" "x < 2 ^ 53 * ulp x"
proof -
  have x: "x \<noteq> 0" "\<bar>x\<bar> = x" using assms by simp_all
  have "2 ^ 52 * ulp x = 2 powr (of_int \<lfloor>log 2 \<bar>x\<bar>\<rfloor>)"
    by (simp add: ulp_def powr_diff)
  with binade(1) [OF x(1)] x(2) show "2 ^ 52 * ulp x \<le> x" by simp
  have "2 ^ 53 * ulp x = 2 powr (of_int \<lfloor>log 2 \<bar>x\<bar>\<rfloor> + 1)"
    by (simp add: ulp_def powr_diff powr_add)
  with binade(2) [OF x(1)] x(2) show "x < 2 ^ 53 * ulp x" by simp
qed

lemma to_double_binade:
  assumes "0 < x"
  shows "2 ^ 52 * ulp x \<le> to_double x" "to_double x \<le> 2 ^ 53 * ulp x"
proof -
  have q: "2 ^ 52 \<le> x / ulp x" "x / ulp x \<le> 2 ^ 53"
    using ulp_binade [OF assms] ulp_pos [of x] by (simp_all add: field_simps)
  have "round_half_even (2 ^ 52) \<le> round_half_even (x / ulp x)"
    by (rule round_half_even_mono [OF q(1)])
  moreover have "round_half_even (2 ^ 52) = 2 ^ 52"
    using round_half_even_int [of "2 ^ 52"] by simp
  ultimately have "(2 ^ 52 :: real) \<le> of_int (round_half_even (x / ulp x))"
    by (metis of_int_le_iff of_int_numeral of_int_power)
  then show "2 ^ 52 * ulp x \<le> to_double x"
    using assms ulp_pos [of x] by (simp add: to_double_def)
  have "round_half_even (x / ulp x) \<le> round_half_even (2 ^ 53)"
    by (rule round_half_even_mono [OF q(2)])
  moreover have "round_half_even (2 ^ 53) = 2 ^ 53"
    using round_half_even_int [of "2 ^ 53"] by simp
  ultimately have "of_int (round_half_even (x / ulp x)) \<le> (2 ^ 53 :: real)"
    by (metis of_int_le_iff of_int_numeral of_int_power)
  then show "to_double x \<le> 2 ^ 53 * ulp x"
    using assms ulp_pos [of x] by (simp add: to_double_def)
qed

lemma ulp_mono:
  assumes "0 < x" and "x \<le> y"
  shows "ulp x \<le> ulp y"
proof -
  have "log 2 x \<le> log 2 y" using assms by simp
  then have "\<lfloor>log 2 x\<rfloor> \<le> \<lfloor>log 2 y\<rfloor>" by (rule floor_mono)
  then show ?thesis using assms by (simp add: ulp_def)
qed

lemma ulp_double:
  assumes "0 < x" and "0 < y" and "ulp x < ulp y"
  shows "2 * ulp x \<le> ulp y"
proof -
  from assms(3) have "\<lfloor>log 2 \<bar>x\<bar>\<rfloor> < \<lfloor>log 2 \<bar>y\<bar>\<rfloor>"
    by (simp add: ulp_def)
  then have "of_int \<lfloor>log 2 \<bar>x\<bar>\<rfloor> + (1::real) \<le> of_int \<lfloor>log 2 \<bar>y\<bar>\<rfloor>"
    by linarith
  then have "(2::real) powr ((of_int \<lfloor>log 2 \<bar>x\<bar>\<rfloor> - 52) + 1)
      \<le> 2 powr (of_int \<lfloor>log 2 \<bar>y\<bar>\<rfloor> - 52)"
    by (intro powr_mono) simp_all
  then have "(2::real) powr (of_int \<lfloor>log 2 \<bar>x\<bar>\<rfloor> - 52) * 2
      \<le> 2 powr (of_int \<lfloor>log 2 \<bar>y\<bar>\<rfloor> - 52)"
    unfolding powr_add by simp
  then show ?thesis by (simp add: ulp_def mult.commute)
qed

lemma to_double_mono_pos:
  assumes "0 < x" and "x \<le> y"
  shows "to_double x \<le> to_double y"
proof (cases "ulp x = ulp y")
  case True
  have "x / ulp y \<le> y / ulp y"
    using assms ulp_pos [of y] by (simp add: divide_right_mono)
  from round_half_even_mono [OF this]
  have "(of_int (round_half_even (x / ulp y)) :: real) \<le> of_int (round_half_even (y / ulp y))"
    by simp
  then show ?thesis
    using assms ulp_pos [of y] by (simp add: to_double_def True)
next
  case False
  have y: "0 < y" using assms by simp
  from False ulp_mono [OF assms] have "ulp x < ulp y" by simp
  from ulp_double [OF assms(1) y this] have "2 ^ 53 * ulp x \<le> 2 ^ 52 * ulp y" by simp
  with to_double_binade(2) [OF assms(1)] to_double_binade(1) [OF y] show ?thesis by linarith
qed

lemma to_double_sign:
  assumes "0 \<le> x"
  shows "0 \<le> to_double x"
proof (cases "x = 0")
  case True
  then show ?thesis by (simp add: to_double_def)
next
  case False
  with assms have "0 < x" by simp
  from to_double_binade(1) [OF this] ulp_pos [of x] show ?thesis
    by (smt (verit) mult_pos_pos zero_less_numeral zero_less_power)
qed

lemma to_double_mono:
  assumes "x \<le> y"
  shows "to_double x \<le> to_double y"
proof -
  consider "0 < x" | "y < 0" | "x \<le> 0" "0 \<le> y" by linarith
  then show ?thesis
  proof cases
    case 1
    then show ?thesis using assms by (rule to_double_mono_pos)
  next
    case 2
    then have "0 < - y" "- y \<le> - x" using assms by simp_all
    from to_double_mono_pos [OF this] show ?thesis by (simp add: to_double_minus)
  next
    case 3
    from to_double_sign [OF 3(2)] to_double_sign [of "- x"] 3(1) show ?thesis
      by (simp add: to_double_minus)
  qed
qed


lemma to_double_scaled:
  assumes "2 ^ 52 * 2 powr (of_int k) \<le> v" and "v < 2 ^ 53 * 2 powr (of_int k)"
  shows "to_double v = of_int (round_half_even (v / 2 powr (of_int k))) * 2 powr (of_int k)"
proof -
  have p: "(2::real) ^ 52 * 2 powr (of_int k) = 2 powr (of_int (k + 52))"
    "(2::real) ^ 53 * 2 powr (of_int k) = 2 powr (of_int (k + 52) + 1)"
    by (simp_all add: powr_add)
  have "0 < v" using assms(1) by (smt (verit) mult_pos_pos powr_gt_zero zero_less_numeral zero_less_power)
  then have a: "\<bar>v\<bar> = v" by simp
  from to_double_in_binade [of "k + 52" v] assms show ?thesis
    unfolding p a by simp
qed

lemma to_double_idem_pos:
  assumes "0 < x"
  shows "to_double (to_double x) = to_double x"
proof -
  define k where "k = \<lfloor>log 2 \<bar>x\<bar>\<rfloor> - 52"
  define m where "m = round_half_even (x / ulp x)"
  have u: "ulp x = 2 powr (of_int k)" by (simp add: ulp_def k_def)
  have v: "to_double x = of_int m * 2 powr (of_int k)"
    using assms by (simp add: to_double_def m_def u)
  have lo: "2 ^ 52 * 2 powr (of_int k) \<le> to_double x"
    and hi: "to_double x \<le> 2 ^ 53 * 2 powr (of_int k)"
    using to_double_binade [OF assms] by (simp_all add: u)
  show ?thesis
  proof (cases "to_double x < 2 ^ 53 * 2 powr (of_int k)")
    case True
    have "to_double x / 2 powr (of_int k) = of_int m" by (simp add: v)
    with to_double_scaled [OF lo True] show ?thesis by (simp add: v)
  next
    case False
    with hi have eq: "to_double x = 2 ^ 53 * 2 powr (of_int k)" by simp
    have s: "(2::real) powr (of_int (k + 1)) = 2 * 2 powr (of_int k)"
      by (simp add: powr_add)
    have "2 ^ 52 * 2 powr (of_int (k + 1)) \<le> to_double x"
      "to_double x < 2 ^ 53 * 2 powr (of_int (k + 1))"
      unfolding s eq by simp_all
    from to_double_scaled [OF this]
    have "to_double (to_double x)
        = of_int (round_half_even (to_double x / 2 powr (of_int (k + 1)))) * 2 powr (of_int (k + 1))" .
    moreover have "to_double x / 2 powr (of_int (k + 1)) = of_int (2 ^ 52)"
      unfolding s eq by simp
    ultimately have "to_double (to_double x) = of_int (2 ^ 52) * 2 powr (of_int (k + 1))"
      by (simp only: round_half_even_int)
    then show ?thesis
      unfolding s by (simp add: eq)
  qed
qed

lemma to_double_idem: "to_double (to_double x) = to_double x"
proof -
  consider "0 < x" | "x = 0" | "0 < - x" by linarith
  then show ?thesis
  proof cases
    case 1
    then show ?thesis by (rule to_double_idem_pos)
  next
    case 2
    then show ?thesis by (simp add: to_double_def)
  next
    case 3
    from to_double_idem_pos [OF this] show ?thesis by (simp add: to_double_minus)
  qed
qed

lemma double_plus_error: "\<bar>double_plus a b - (a + b)\<bar> \<le> \<bar>a + b\<bar> / 2 ^ 53"
  unfolding double_plus_def by (rule to_double_error)

lemma double_plus_rounding:
  "\<bar>double_plus c d - (c + d)\<bar>
     \<le> rounding \<lparr>bufferDuration = d, startTime = c, stopCalled = x\<rparr>"
proof -
  have "rounding \<lparr>bufferDuration = d, startTime = c, stopCalled = x\<rparr> = \<bar>c + d\<bar> / 2 ^ 53"
    by (simp add: rounding_def)
  then show ?thesis
    using double_plus_error [of c d] by (simp only:)
qed

lemma is_double_to_double: "is_double (to_double x)"
  by (simp add: is_double_def to_double_idem)

lemma is_double_plus: "is_double (double_plus a b)"
  by (simp add: double_plus_def is_double_to_double)

lemma is_double_zero: "is_double 0"
  by (simp add: is_double_def to_double_def)

lemma double_plus_ge: "is_double a \<Longrightarrow> 0 \<le> b \<Longrightarrow> a \<le> double_plus a b"
  using to_double_mono [of a "a + b"] by (simp add: is_double_def double_plus_def)

lemma double_plus_ge_trans: "is_double c \<Longrightarrow> c \<le> a \<Longrightarrow> 0 \<le> b \<Longrightarrow> c \<le> double_plus a b"
  using to_double_mono [of c "a + b"] by (simp add: is_double_def double_plus_def)

section \<open>Properties of the scheduling step\<close>

lemma scheduleUnit_fields:
  "nodes (scheduleUnit now b s) =
     nodes s @ [\<lparr>bufferDuration = duration b,
                 startTime = max (audioQueueNextStartTime s) now, stopCalled = False\<rparr>]"
  "audioQueueNextStartTime (scheduleUnit now b s) =
     max (audioQueueNextStartTime s) now + duration b"
  "activeSources (scheduleUnit now b s) = activeSources s @ [length (nodes s)]"
  by (simp_all add: scheduleUnit_def Let_def max_def)

lemma scheduleUnit_frame:
  "callbacks (scheduleUnit now b s) = callbacks s"
  "session (scheduleUnit now b s) = session s"
  "audioContext (scheduleUnit now b s) = audioContext s"
  "gainNode (scheduleUnit now b s) = gainNode s"
  "isConnected (scheduleUnit now b s) = isConnected s"
  "inputAudioContext (scheduleUnit now b s) = inputAudioContext s"
  "inputMediaStream (scheduleUnit now b s) = inputMediaStream s"
  "trace (scheduleUnit now b s) = trace s"
  by (simp_all add: scheduleUnit_def Let_def)

lemma scheduleUnit_not_in_past:
  "currentTime \<le> startTime (last (nodes (scheduleUnit currentTime audioBuffer s)))"
  by (simp add: scheduleUnit_fields)

lemma scheduleUnit_double_fields:
  "nodes (scheduleUnit_double now b s) =
     nodes s @ [\<lparr>bufferDuration = duration b,
                 startTime = max (audioQueueNextStartTime s) now, stopCalled = False\<rparr>]"
  "audioQueueNextStartTime (scheduleUnit_double now b s) =
     double_plus (max (audioQueueNextStartTime s) now) (duration b)"
  "activeSources (scheduleUnit_double now b s) = activeSources s @ [length (nodes s)]"
  by (simp_all add: scheduleUnit_double_def Let_def max_def)

lemma scheduleUnit_double_exact:
  "scheduleUnit_double now b s =
     (scheduleUnit now b s)
       \<lparr>audioQueueNextStartTime := to_double (audioQueueNextStartTime (scheduleUnit now b s))\<rparr>"
  by (simp add: scheduleUnit_double_def scheduleUnit_def Let_def double_plus_def)

lemma scheduleUnit_double_not_in_past:
  "currentTime \<le> startTime (last (nodes (scheduleUnit_double currentTime audioBuffer s)))"
  by (simp add: scheduleUnit_double_fields)

lemma scheduleUnits_double_in_time:
  "in_time_double s units \<Longrightarrow>
     nodes (scheduleUnits_double s units) =
       nodes s @ chain_double (audioQueueNextStartTime s) (map (duration \<circ> snd) units)
   \<and> audioQueueNextStartTime (scheduleUnits_double s units) =
       cursor_after (audioQueueNextStartTime s) (map (duration \<circ> snd) units)"
proof (induction units arbitrary: s)
  case Nil
  then show ?case by simp
next
  case (Cons u units)
  obtain now b where u: "u = (now, b)" by (cases u)
  from Cons.prems u have le: "now \<le> audioQueueNextStartTime s"
    and rest: "in_time_double (scheduleUnit_double now b s) units"
    by simp_all
  from le have m: "max (audioQueueNextStartTime s) now = audioQueueNextStartTime s"
    by simp
  show ?case
    using Cons.IH [OF rest] by (simp add: u scheduleUnit_double_fields m)
qed

lemma chain_double_length: "length (chain_double c ds) = length ds"
  by (induction ds arbitrary: c) simp_all

lemma chain_double_durations: "map bufferDuration (chain_double c ds) = ds"
  by (induction ds arbitrary: c) simp_all

lemma chain_double_hd: "ds \<noteq> [] \<Longrightarrow> startTime (hd (chain_double c ds)) = c"
  by (cases ds) simp_all

lemma chain_double_chained: "chained (chain_double c ds)"
proof (induction ds arbitrary: c)
  case Nil
  then show ?case by simp
next
  case (Cons d ds)
  then show ?case by (cases ds) simp_all
qed

lemma chain_double_nearly: "nearly_back_to_back (chain_double c ds)"
proof (induction ds arbitrary: c)
  case Nil
  then show ?case by simp
next
  case (Cons d ds)
  then show ?case by (cases ds) (simp_all add: double_plus_rounding)
qed

lemma chain_double_last:
  "ds \<noteq> [] \<Longrightarrow>
   cursor_after c ds = double_plus (startTime (last (chain_double c ds)))
                                   (bufferDuration (last (chain_double c ds)))"
proof (induction ds arbitrary: c)
  case Nil
  then show ?case by simp
next
  case (Cons d ds)
  then show ?case by (cases ds) simp_all
qed

lemma chain_double_span:
  "\<bar>cursor_after c ds - (c + sum_list ds)\<bar> \<le> sum_list (map rounding (chain_double c ds))"
proof (induction ds arbitrary: c)
  case Nil
  then show ?case by simp
next
  case (Cons d ds)
  have "\<bar>cursor_after c (d # ds) - (c + sum_list (d # ds))\<bar>
      = \<bar>(cursor_after (double_plus c d) ds - (double_plus c d + sum_list ds))
         + (double_plus c d - (c + d))\<bar>"
    by simp
  also have "\<dots> \<le> \<bar>cursor_after (double_plus c d) ds - (double_plus c d + sum_list ds)\<bar>
      + \<bar>double_plus c d - (c + d)\<bar>"
    by (rule abs_triangle_ineq)
  also have "\<dots> \<le> sum_list (map rounding (chain_double (double_plus c d) ds))
      + rounding \<lparr>bufferDuration = d, startTime = c, stopCalled = False\<rparr>"
    using Cons.IH [of "double_plus c d"] double_plus_rounding [of c d False] by linarith
  finally show ?case by simp
qed

lemma chain_double_arrivals:
  "in_time_double s units \<Longrightarrow>
   list_all2 (\<lambda>u n. fst u \<le> startTime n) units
     (chain_double (audioQueueNextStartTime s) (map (duration \<circ> snd) units))"
proof (induction units arbitrary: s)
  case Nil
  then show ?case by simp
next
  case (Cons u units)
  obtain now b where u: "u = (now, b)" by (cases u)
  from Cons.prems u have le: "now \<le> audioQueueNextStartTime s"
    and rest: "in_time_double (scheduleUnit_double now b s) units"
    by simp_all
  from le have m: "max (audioQueueNextStartTime s) now = audioQueueNextStartTime s"
    by simp
  show ?case
    using Cons.IH [OF rest] le by (simp add: u scheduleUnit_double_fields m)
qed

lemma chain_double_starts_later:
  "list_all (\<lambda>d. 0 \<le> d) ds \<Longrightarrow> is_double c \<Longrightarrow> c \<le> c' \<Longrightarrow>
   list_all (\<lambda>b. c \<le> startTime b) (chain_double c' ds)"
proof (induction ds arbitrary: c')
  case Nil
  then show ?case by simp
next
  case (Cons d ds)
  then have "c \<le> double_plus c' d" by (simp add: double_plus_ge_trans)
  with Cons show ?case by simp
qed

lemma chain_double_doubles:
  "is_double c \<Longrightarrow> list_all (\<lambda>b. is_double (startTime b)) (chain_double c ds)"
  by (induction ds arbitrary: c) (simp_all add: is_double_plus)

lemma chain_double_sorted:
  "list_all (\<lambda>d. 0 \<le> d) ds \<Longrightarrow> is_double c \<Longrightarrow> sorted (map startTime (chain_double c ds))"
proof (induction ds arbitrary: c)
  case Nil
  then show ?case by simp
next
  case (Cons d ds)
  from Cons.prems have d: "0 \<le> d" and ds: "list_all (\<lambda>d. 0 \<le> d) ds" by simp_all
  have "list_all (\<lambda>b. c \<le> startTime b) (chain_double (double_plus c d) ds)"
    by (rule chain_double_starts_later [OF ds Cons.prems(2)]) (rule double_plus_ge [OF Cons.prems(2) d])
  with Cons.IH [OF ds is_double_plus] show ?case
    by (simp add: list_all_iff)
qed

lemma chain_double_overlap:
  "list_all (\<lambda>d. 0 \<le> d) ds \<Longrightarrow> is_double c \<Longrightarrow> overlap_bounded (chain_double c ds)"
proof (induction ds arbitrary: c)
  case Nil
  then show ?case by simp
next
  case (Cons d ds)
  from Cons.prems have d: "0 \<le> d" and ds: "list_all (\<lambda>d. 0 \<le> d) ds" by simp_all
  let ?a = "\<lparr>bufferDuration = d, startTime = c, stopCalled = False\<rparr>"
  have near: "c + d - rounding ?a \<le> double_plus c d"
    using double_plus_rounding [of c d False] by linarith
  have "list_all (\<lambda>b. double_plus c d \<le> startTime b) (chain_double (double_plus c d) ds)"
    by (rule chain_double_starts_later [OF ds is_double_plus]) simp
  then have "list_all (\<lambda>b. c + d - rounding ?a \<le> startTime b) (chain_double (double_plus c d) ds)"
    using near by (auto simp: list_all_iff)
  with Cons.IH [OF ds is_double_plus] show ?case
    by simp
qed

text \<open>
  With rounded sums too, no unit of a run starts before a double that the cursor has
  reached, when no duration is negative.
\<close>

lemma scheduleUnits_double_later:
  "list_all (\<lambda>u. 0 \<le> duration (snd u)) units \<Longrightarrow> is_double c \<Longrightarrow>
   c \<le> audioQueueNextStartTime s \<Longrightarrow>
   \<exists>new. nodes (scheduleUnits_double s units) = nodes s @ new
     \<and> list_all (\<lambda>n. c \<le> startTime n) new"
proof (induction units arbitrary: s)
  case Nil
  then show ?case by simp
next
  case (Cons u units)
  obtain now b where u: "u = (now, b)" by (cases u)
  let ?s1 = "scheduleUnit_double now b s"
  from Cons.prems u have d: "0 \<le> duration b"
    and rest: "list_all (\<lambda>u. 0 \<le> duration (snd u)) units"
    by simp_all
  from Cons.prems(3) have m: "c \<le> max (audioQueueNextStartTime s) now"
    by simp
  have c1: "c \<le> audioQueueNextStartTime ?s1"
    unfolding scheduleUnit_double_fields by (rule double_plus_ge_trans [OF Cons.prems(2) m d])
  from Cons.IH [OF rest Cons.prems(2) c1] obtain new
    where n: "nodes (scheduleUnits_double ?s1 units) = nodes ?s1 @ new"
      and l: "list_all (\<lambda>n. c \<le> startTime n) new"
    by blast
  show ?case
    using n l m by (simp add: u scheduleUnit_double_fields)
qed

section \<open>What the statements of the service do\<close>

lemmas stmt_defs = skip_def throw_error_def seq_def try_catch_def if_else_def if_then_def
  modify_def emit_def unawaited_def

lemma emit_run: "emit e s = (Normal, s\<lparr>trace := trace s @ [e]\<rparr>)"
  by (simp add: stmt_defs)

lemma log_msg_run:
  "log_msg msg s = (Normal, s\<lparr>trace := trace s @ log_effects (callbacks s) msg\<rparr>)"
  by (simp add: log_msg_def log_effects_def stmt_defs)

lemma mark_stopped_length: "length (mark_stopped is ns) = length ns"
  by (induction "is" arbitrary: ns) simp_all

lemma mark_stopped_nth:
  "i < length ns \<Longrightarrow>
   mark_stopped is ns ! i = (ns ! i)\<lparr>stopCalled := stopCalled (ns ! i) \<or> i \<in> set is\<rparr>"
proof (induction "is" arbitrary: ns)
  case Nil
  then show ?case by simp
next
  case (Cons j js)
  show ?case
  proof (cases "j < length ns")
    case True
    with Cons show ?thesis by (cases "i = j") (auto simp: nth_list_update)
  next
    case False
    with Cons show ?thesis by auto
  qed
qed

lemma mark_stopped_nil: "mark_stopped [] ns = ns"
  by simp


lemma stop_each_run:
  "for_each (\<lambda>source. try_catch (source_stop source) (\<lambda>e. skip)) is s =
     (Normal, s\<lparr>nodes := mark_stopped is (nodes s)\<rparr>)"
proof (induction "is" arbitrary: s)
  case Nil
  then show ?case by (simp add: skip_def)
next
  case (Cons i "is")
  have step: "try_catch (source_stop i) (\<lambda>e. skip) s =
      (Normal, s\<lparr>nodes := (if i < length (nodes s)
                             then (nodes s)[i := (nodes s ! i)\<lparr>stopCalled := True\<rparr>]
                             else nodes s)\<rparr>)"
    by (simp add: try_catch_def source_stop_def skip_def)
  have "for_each (\<lambda>source. try_catch (source_stop source) (\<lambda>e. skip)) (i # is) s =
      for_each (\<lambda>source. try_catch (source_stop source) (\<lambda>e. skip)) is
        (s\<lparr>nodes := (if i < length (nodes s)
                      then (nodes s)[i := (nodes s ! i)\<lparr>stopCalled := True\<rparr>]
                      else nodes s)\<rparr>)"
    unfolding for_each.simps seq_def step by simp
  then show ?case
    unfolding Cons.IH by simp
qed

lemma stop_active_sources_run:
  "stop_active_sources s = (Normal, s\<lparr>nodes := mark_stopped (activeSources s) (nodes s)\<rparr>)"
  by (simp add: stop_active_sources_def stop_each_run)

lemma handle_interruption_run:
  "interrupted message \<Longrightarrow>
   handle_interruption now message s =
     (Normal, s\<lparr>trace := trace s @ log_effects (callbacks s) ''Model Interrupted.'',
                nodes := mark_stopped (activeSources s) (nodes s),
                activeSources := [],
                audioQueueNextStartTime :=
                  (if audioContext s \<noteq> None then now else audioQueueNextStartTime s)\<rparr>)"
  by (simp add: handle_interruption_def if_then_def if_else_def seq_def skip_def modify_def
      log_msg_run stop_active_sources_run)

lemma handle_interruption_skip:
  "\<not> interrupted message \<Longrightarrow> handle_interruption now message s = (Normal, s)"
  by (simp add: handle_interruption_def if_then_def if_else_def skip_def)

lemma handle_audio_output_run:
  "handle_audio_output env now message s = (Normal, after_audio env now message s)"
  by (simp add: handle_audio_output_def after_audio_def decode_and_schedule_def if_then_def
      if_else_def seq_def skip_def modify_def try_catch_def throw_error_def log_msg_run emit_run
      split: option.split)

lemma handle_text_run:
  "handle_text message s =
     (Normal, if transcriptionText message \<noteq> [] \<and> onSubtitle (callbacks s)
              then s\<lparr>trace := trace s @ [CbSubtitle (transcriptionText message)]\<rparr> else s)"
  by (simp add: handle_text_def if_then_def if_else_def skip_def emit_run)

lemma handleMessage_run:
  "handleMessage env now message s =
     handle_interruption now message (before_interruption env now message s)"
  by (simp add: handleMessage_def before_interruption_def Let_def seq_def if_then_def if_else_def
      skip_def emit_run handle_audio_output_run handle_text_run
      split: prod.split outcome.split)

lemma after_audio_frame:
  "audioContext (after_audio env now message s) = audioContext s"
  "gainNode (after_audio env now message s) = gainNode s"
  "callbacks (after_audio env now message s) = callbacks s"
  "session (after_audio env now message s) = session s"
  "isConnected (after_audio env now message s) = isConnected s"
  by (simp_all add: after_audio_def scheduleUnit_frame scheduleUnit_def Let_def split: option.split)

lemma after_audio_sched:
  "(nodes (after_audio env now message s) = nodes s
      \<and> activeSources (after_audio env now message s) = activeSources s
      \<and> audioQueueNextStartTime (after_audio env now message s) = audioQueueNextStartTime s)
   \<or> (\<exists>b. decodeAudio env (inlineData message) = Some b
        \<and> nodes (after_audio env now message s) = nodes (scheduleUnit now b s)
        \<and> activeSources (after_audio env now message s) = activeSources (scheduleUnit now b s)
        \<and> audioQueueNextStartTime (after_audio env now message s)
            = audioQueueNextStartTime (scheduleUnit now b s))"
  by (simp add: after_audio_def scheduleUnit_def Let_def split: option.split)

lemma before_interruption_frame:
  "audioContext (before_interruption env now message s) = audioContext s"
  "gainNode (before_interruption env now message s) = gainNode s"
  "callbacks (before_interruption env now message s) = callbacks s"
  "session (before_interruption env now message s) = session s"
  "isConnected (before_interruption env now message s) = isConnected s"
  by (simp_all add: before_interruption_def Let_def after_audio_frame)

lemma before_interruption_sched:
  "(nodes (before_interruption env now message s) = nodes s
      \<and> activeSources (before_interruption env now message s) = activeSources s
      \<and> audioQueueNextStartTime (before_interruption env now message s) = audioQueueNextStartTime s)
   \<or> (\<exists>b. decodeAudio env (inlineData message) = Some b
        \<and> nodes (before_interruption env now message s) = nodes (scheduleUnit now b s)
        \<and> activeSources (before_interruption env now message s) = activeSources (scheduleUnit now b s)
        \<and> audioQueueNextStartTime (before_interruption env now message s)
            = audioQueueNextStartTime (scheduleUnit now b s))"
proof -
  let ?s0 = "if onResponse (callbacks s) then s\<lparr>trace := trace s @ [CbResponse]\<rparr> else s"
  have s0: "nodes ?s0 = nodes s" "activeSources ?s0 = activeSources s"
    "audioQueueNextStartTime ?s0 = audioQueueNextStartTime s"
    by simp_all
  have su: "nodes (scheduleUnit now b ?s0) = nodes (scheduleUnit now b s)"
    "activeSources (scheduleUnit now b ?s0) = activeSources (scheduleUnit now b s)"
    "audioQueueNextStartTime (scheduleUnit now b ?s0) = audioQueueNextStartTime (scheduleUnit now b s)" for b
    by (simp_all add: scheduleUnit_fields)
  from after_audio_sched [of env now message ?s0]
  show ?thesis
    unfolding s0 su by (simp add: before_interruption_def Let_def)
qed

lemma scheduleUnits_later:
  "list_all (\<lambda>u. 0 \<le> duration (snd u)) units \<Longrightarrow> c \<le> audioQueueNextStartTime s \<Longrightarrow>
   list_all (\<lambda>n. c \<le> startTime n) (drop (length (nodes s)) (nodes (scheduleUnits s units)))
   \<and> length (nodes s) \<le> length (nodes (scheduleUnits s units))
   \<and> take (length (nodes s)) (nodes (scheduleUnits s units)) = nodes s"
proof (induction units arbitrary: s)
  case Nil
  then show ?case by simp
next
  case (Cons u units)
  obtain now b where u: "u = (now, b)" by (cases u)
  let ?s1 = "scheduleUnit now b s"
  from Cons.prems u have d: "0 \<le> duration b" and rest: "list_all (\<lambda>u. 0 \<le> duration (snd u)) units"
    by simp_all
  from Cons.prems(2) d have c1: "c \<le> audioQueueNextStartTime ?s1"
    by (simp add: scheduleUnit_fields)
  note IH = Cons.IH [OF rest c1]
  have len1: "length (nodes ?s1) = Suc (length (nodes s))"
    by (simp add: scheduleUnit_fields)
  let ?N = "nodes (scheduleUnits ?s1 units)"
  from IH have tk: "take (Suc (length (nodes s))) ?N = nodes ?s1" and le: "Suc (length (nodes s)) \<le> length ?N"
    and later: "list_all (\<lambda>n. c \<le> startTime n) (drop (Suc (length (nodes s))) ?N)"
    by (simp_all add: len1)
  have split: "?N = nodes ?s1 @ drop (Suc (length (nodes s))) ?N"
    using tk by (metis append_take_drop_id)
  have dr: "drop (length (nodes s)) ?N =
      \<lparr>bufferDuration = duration b, startTime = max (audioQueueNextStartTime s) now, stopCalled = False\<rparr>
        # drop (Suc (length (nodes s))) ?N"
    by (subst split) (simp add: scheduleUnit_fields)
  have tk0: "take (length (nodes s)) ?N = nodes s"
    by (subst split) (simp add: scheduleUnit_fields)
  from Cons.prems(2) have "c \<le> max (audioQueueNextStartTime s) now" by simp
  with later le tk0 show ?case
    by (simp add: u dr)
qed

lemma handleMessage_schedules:
  assumes "inlineData message \<noteq> []" and "decodeAudio env (inlineData message) = Some b"
    and "audioContext s \<noteq> None" and "gainNode s \<noteq> None" and "\<not> interrupted message"
  shows "fst (handleMessage env now message s) = Normal"
    "nodes (snd (handleMessage env now message s)) = nodes (scheduleUnit now b s)"
    "activeSources (snd (handleMessage env now message s)) = activeSources (scheduleUnit now b s)"
    "audioQueueNextStartTime (snd (handleMessage env now message s))
       = audioQueueNextStartTime (scheduleUnit now b s)"
  using assms
  by (auto simp: handleMessage_run handle_interruption_skip before_interruption_def
      after_audio_def Let_def scheduleUnit_fields)

lemma handleMessage_decode_failure:
  assumes "decodeAudio env (inlineData message) = None" and "\<not> interrupted message"
  shows "fst (handleMessage env now message s) = Normal"
    "nodes (snd (handleMessage env now message s)) = nodes s"
    "activeSources (snd (handleMessage env now message s)) = activeSources s"
    "audioQueueNextStartTime (snd (handleMessage env now message s)) = audioQueueNextStartTime s"
  using assms
  by (simp_all add: handleMessage_run handle_interruption_skip before_interruption_def
      after_audio_def Let_def)

section \<open>Gapless scheduling\<close>

lemma tenth_sums:
  "double_plus 0 (3602879701896397 / 36028797018963968) = 3602879701896397 / 36028797018963968"
  "double_plus (3602879701896397 / 36028797018963968) (3602879701896397 / 36028797018963968)
     = 3602879701896397 / 18014398509481984"
  "double_plus (3602879701896397 / 18014398509481984) (3602879701896397 / 36028797018963968)
     = 1351079888211149 / 4503599627370496"
  "double_plus (1351079888211149 / 4503599627370496) (3602879701896397 / 36028797018963968)
     = 3602879701896397 / 9007199254740992"
  "double_plus (3602879701896397 / 9007199254740992) (3602879701896397 / 36028797018963968)
     = 1 / 2"
proof -
  show "double_plus 0 (3602879701896397 / 36028797018963968) = 3602879701896397 / 36028797018963968"
    unfolding double_plus_def
    using to_double_in_binade [of "- 4" "0 + 3602879701896397 / 36028797018963968"]
    by (simp add: powr_minus powr_diff round_half_even_def)
  show "double_plus (3602879701896397 / 36028797018963968) (3602879701896397 / 36028797018963968)
     = 3602879701896397 / 18014398509481984"
    unfolding double_plus_def
    using to_double_in_binade [of "- 3" "3602879701896397 / 36028797018963968 + 3602879701896397 / 36028797018963968"]
    by (simp add: powr_minus powr_diff round_half_even_def)
  show "double_plus (3602879701896397 / 18014398509481984) (3602879701896397 / 36028797018963968)
     = 1351079888211149 / 4503599627370496"
    unfolding double_plus_def
    using to_double_in_binade [of "- 2" "3602879701896397 / 18014398509481984 + 3602879701896397 / 36028797018963968"]
    by (simp add: powr_minus powr_diff round_half_even_def)
  show "double_plus (1351079888211149 / 4503599627370496) (3602879701896397 / 36028797018963968)
     = 3602879701896397 / 9007199254740992"
    unfolding double_plus_def
    using to_double_in_binade [of "- 2" "1351079888211149 / 4503599627370496 + 3602879701896397 / 36028797018963968"]
    by (simp add: powr_minus powr_diff round_half_even_def)
  show "double_plus (3602879701896397 / 9007199254740992) (3602879701896397 / 36028797018963968)
     = 1 / 2"
    unfolding double_plus_def
    using to_double_in_binade [of "- 1" "3602879701896397 / 9007199254740992 + 3602879701896397 / 36028797018963968"]
    by (simp add: powr_minus powr_diff round_half_even_def)
qed

lemma tenths_run:
  "nodes (scheduleUnits_double fresh_service tenths) =
     [\<lparr>bufferDuration = 3602879701896397 / 36028797018963968, startTime = 0, stopCalled = False\<rparr>,
      \<lparr>bufferDuration = 3602879701896397 / 36028797018963968,
        startTime = 3602879701896397 / 36028797018963968, stopCalled = False\<rparr>,
      \<lparr>bufferDuration = 3602879701896397 / 36028797018963968,
        startTime = 3602879701896397 / 18014398509481984, stopCalled = False\<rparr>,
      \<lparr>bufferDuration = 3602879701896397 / 36028797018963968,
        startTime = 1351079888211149 / 4503599627370496, stopCalled = False\<rparr>,
      \<lparr>bufferDuration = 3602879701896397 / 36028797018963968,
        startTime = 3602879701896397 / 9007199254740992, stopCalled = False\<rparr>]"
  "audioQueueNextStartTime (scheduleUnits_double fresh_service tenths) = 1 / 2"
  "in_time_double (scheduleUnit_double 0 tenth fresh_service) (tl tenths)"
  by (simp_all add: tenths_def tenth_def scheduleUnit_double_fields tenth_sums
      fresh_service_def new_service_def)

text \<open>
  The sum that advances the cursor is rounded, so a unit need not start where the unit
  before it ends. Five units of a tenth of a second, a duration that is a double, are
  scheduled on a fresh service, all at clock reading 0. In units of \<open>1 / 2 ^ 55\<close> seconds, the third unit ends at
  10808639105689191 and the fourth starts at 10808639105689192, after that end; the
  fourth ends at 14411518807585589 and the fifth starts at 14411518807585588, before
  that end; and the cursor ends at a half, while the five durations add up to
  18014398509481985 such units, which is more than a half.
\<close>

theorem rounding_breaks_gapless:
  "is_double (duration tenth)
   \<and> in_time_double fresh_service tenths
   \<and> map startTime (nodes (scheduleUnits_double fresh_service tenths))
       = [0, 3602879701896397 / 36028797018963968, 3602879701896397 / 18014398509481984,
          1351079888211149 / 4503599627370496, 3602879701896397 / 9007199254740992]
   \<and> startTime (nodes (scheduleUnits_double fresh_service tenths) ! 2)
        + bufferDuration (nodes (scheduleUnits_double fresh_service tenths) ! 2)
       = 10808639105689191 / 36028797018963968
   \<and> startTime (nodes (scheduleUnits_double fresh_service tenths) ! 3)
       = 10808639105689192 / 36028797018963968
   \<and> startTime (nodes (scheduleUnits_double fresh_service tenths) ! 3)
        + bufferDuration (nodes (scheduleUnits_double fresh_service tenths) ! 3)
       = 14411518807585589 / 36028797018963968
   \<and> startTime (nodes (scheduleUnits_double fresh_service tenths) ! 4)
       = 14411518807585588 / 36028797018963968
   \<and> \<not> back_to_back (nodes (scheduleUnits_double fresh_service tenths))
   \<and> \<not> no_overlap (nodes (scheduleUnits_double fresh_service tenths))
   \<and> audioQueueNextStartTime (scheduleUnits_double fresh_service tenths) = 1 / 2
   \<and> sum_list (map (duration \<circ> snd) tenths) = 18014398509481985 / 36028797018963968"
proof -
  have "in_time_double fresh_service tenths"
    using tenths_run(3) by (simp add: tenths_def fresh_service_def new_service_def)
  moreover have "sum_list (map (duration \<circ> snd) tenths) = 18014398509481985 / 36028797018963968"
    by (simp add: tenths_def tenth_def)
  moreover have "is_double (duration tenth)"
    using tenth_sums(1) by (simp add: is_double_def double_plus_def tenth_def)
  ultimately show ?thesis
    unfolding tenths_run by simp
qed

text \<open>
  Claim C1, as the code has it. Units \<open>(now0, b0) # rest\<close> are scheduled one after the
  other with no interruption in between, with the sums rounded as the platform rounds
  them (the last conjunct: this step is what \<^verbatim>\<open>handleMessage\<close> does to the store, the
  active sources and the cursor for a message whose payload decodes and that carries no
  interruption, once the cursor is rounded); every unit after the first arrives while
  the clock has not passed the cursor. Then the run creates one node per unit, with the
  unit's duration; the first starts at the cursor, or at the clock when the cursor lay
  behind it; each later unit starts at the double nearest to the end of the unit before
  it, and so does the cursor after the last unit; so each later unit starts within the
  rounding of one sum of the end of the unit before it, which is at most that end
  divided by \<open>2 ^ 53\<close>, and the cursor ends within the sum of these roundings of the
  start of the first unit plus the sum of the durations; and every unit starts at or
  after its own arrival. When the cursor and the first clock reading are doubles and
  no duration is negative, the start times are doubles and in order, and no unit starts
  before an earlier one has ended by more than the rounding of that end. The conjunct
  before the last holds for every state and unit, with no assumption: a unit is never
  started before the clock reading of its step.
\<close>

theorem gapless_up_to_rounding:
  assumes "in_time_double (scheduleUnit_double now0 b0 s) rest"
  shows "let units = (now0, b0) # rest;
             s' = scheduleUnits_double s units;
             new = drop (length (nodes s)) (nodes s')
         in length new = length units
          \<and> map bufferDuration new = map (duration \<circ> snd) units
          \<and> startTime (hd new) = max (audioQueueNextStartTime s) now0
          \<and> chained new
          \<and> audioQueueNextStartTime s'
              = double_plus (startTime (last new)) (bufferDuration (last new))
          \<and> nearly_back_to_back new
          \<and> \<bar>audioQueueNextStartTime s'
               - (startTime (hd new) + sum_list (map (duration \<circ> snd) units))\<bar>
              \<le> sum_list (map rounding new)
          \<and> list_all2 (\<lambda>u n. fst u \<le> startTime n) units new
          \<and> (is_double (audioQueueNextStartTime s) \<and> is_double now0
               \<and> list_all (\<lambda>u. 0 \<le> duration (snd u)) units \<longrightarrow>
                 sorted (map startTime new)
                 \<and> list_all (\<lambda>n. is_double (startTime n)) new
                 \<and> overlap_bounded new)
          \<and> (\<forall>t b s0. t \<le> startTime (last (nodes (scheduleUnit_double t b s0))))
          \<and> (\<forall>env message t b s0.
                 inlineData message \<noteq> [] \<and> decodeAudio env (inlineData message) = Some b
                 \<and> audioContext s0 \<noteq> None \<and> gainNode s0 \<noteq> None \<and> \<not> interrupted message
                 \<longrightarrow> fst (handleMessage env t message s0) = Normal
                   \<and> nodes (snd (handleMessage env t message s0))
                       = nodes (scheduleUnit_double t b s0)
                   \<and> activeSources (snd (handleMessage env t message s0))
                       = activeSources (scheduleUnit_double t b s0)
                   \<and> to_double (audioQueueNextStartTime (snd (handleMessage env t message s0)))
                       = audioQueueNextStartTime (scheduleUnit_double t b s0))"
proof -
  let ?s1 = "scheduleUnit_double now0 b0 s"
  let ?t0 = "max (audioQueueNextStartTime s) now0"
  let ?ds = "map (duration \<circ> snd) ((now0, b0) # rest)"
  let ?new = "chain_double ?t0 ?ds"
  have run: "nodes (scheduleUnits_double ?s1 rest) =
      nodes ?s1 @ chain_double (audioQueueNextStartTime ?s1) (map (duration \<circ> snd) rest)"
    and cur: "audioQueueNextStartTime (scheduleUnits_double ?s1 rest) =
      cursor_after (audioQueueNextStartTime ?s1) (map (duration \<circ> snd) rest)"
    using scheduleUnits_double_in_time [OF assms(1)] by simp_all
  have new: "drop (length (nodes s)) (nodes (scheduleUnits_double s ((now0, b0) # rest))) = ?new"
    using run by (simp add: scheduleUnit_double_fields)
  have cursor: "audioQueueNextStartTime (scheduleUnits_double s ((now0, b0) # rest))
      = cursor_after ?t0 ?ds"
    using cur by (simp add: scheduleUnit_double_fields)
  have len: "length ?new = length ((now0, b0) # rest)"
    by (simp only: chain_double_length length_map)
  have dur: "map bufferDuration ?new = ?ds"
    by (rule chain_double_durations)
  have hd: "startTime (hd ?new) = ?t0"
    by simp
  have last: "cursor_after ?t0 ?ds = double_plus (startTime (last ?new)) (bufferDuration (last ?new))"
    by (rule chain_double_last) simp
  have span: "\<bar>cursor_after ?t0 ?ds - (startTime (hd ?new) + sum_list ?ds)\<bar>
      \<le> sum_list (map rounding ?new)"
    unfolding hd by (rule chain_double_span)
  have arr: "list_all2 (\<lambda>u n. fst u \<le> startTime n) ((now0, b0) # rest) ?new"
    using chain_double_arrivals [OF assms(1)] by (simp add: scheduleUnit_double_fields)
  have order: "sorted (map startTime ?new) \<and> list_all (\<lambda>n. is_double (startTime n)) ?new
      \<and> overlap_bounded ?new"
    if h: "is_double (audioQueueNextStartTime s) \<and> is_double now0
      \<and> list_all (\<lambda>u. 0 \<le> duration (snd u)) ((now0, b0) # rest)"
  proof -
    from h have t0: "is_double ?t0" by (simp add: max_def)
    from h have nonneg: "list_all (\<lambda>d. 0 \<le> d) ?ds" by (simp add: list_all_iff)
    show ?thesis
      using chain_double_sorted [OF nonneg t0] chain_double_doubles [OF t0, of ?ds]
        chain_double_overlap [OF nonneg t0] by simp
  qed
  have link: "\<forall>env message t b s0.
      inlineData message \<noteq> [] \<and> decodeAudio env (inlineData message) = Some b
      \<and> audioContext s0 \<noteq> None \<and> gainNode s0 \<noteq> None \<and> \<not> interrupted message
      \<longrightarrow> fst (handleMessage env t message s0) = Normal
        \<and> nodes (snd (handleMessage env t message s0)) = nodes (scheduleUnit_double t b s0)
        \<and> activeSources (snd (handleMessage env t message s0))
            = activeSources (scheduleUnit_double t b s0)
        \<and> to_double (audioQueueNextStartTime (snd (handleMessage env t message s0)))
            = audioQueueNextStartTime (scheduleUnit_double t b s0)"
    by (intro allI impI) (simp add: handleMessage_schedules scheduleUnit_double_exact)
  note parts = len dur hd chain_double_chained [of ?t0 ?ds] last chain_double_nearly [of ?t0 ?ds]
    span arr
  show ?thesis
    unfolding Let_def new cursor
    using parts order link scheduleUnit_double_not_in_past by blast
qed

text \<open>
  The theorem at the five units of a tenth of a second, scheduled on a fresh service at
  clock reading 0, and at a message with audio handled by the broadcasting service.
\<close>

theorem gapless_up_to_rounding_witness:
  "in_time_double (scheduleUnit_double 0 tenth fresh_service) (tl tenths)
   \<and> is_double (audioQueueNextStartTime fresh_service)
   \<and> is_double 0
   \<and> list_all (\<lambda>u. 0 \<le> duration (snd u)) tenths
   \<and> length (nodes (scheduleUnits_double fresh_service tenths)) = 5
   \<and> chained (nodes (scheduleUnits_double fresh_service tenths))
   \<and> nearly_back_to_back (nodes (scheduleUnits_double fresh_service tenths))
   \<and> overlap_bounded (nodes (scheduleUnits_double fresh_service tenths))
   \<and> sorted (map startTime (nodes (scheduleUnits_double fresh_service tenths)))
   \<and> \<bar>audioQueueNextStartTime (scheduleUnits_double fresh_service tenths)
        - (0 + sum_list (map (duration \<circ> snd) tenths))\<bar>
       \<le> sum_list (map rounding (nodes (scheduleUnits_double fresh_service tenths)))
   \<and> audioQueueNextStartTime (scheduleUnits_double fresh_service tenths) = 1 / 2
   \<and> inlineData audio_message \<noteq> []
   \<and> decodeAudio good_env (inlineData audio_message) = Some \<lparr>duration = 1\<rparr>
   \<and> audioContext streaming_service \<noteq> None
   \<and> gainNode streaming_service \<noteq> None
   \<and> interrupted audio_message = False
   \<and> map startTime (nodes (snd (handleMessage good_env 6 audio_message streaming_service)))
       = [1, 3, 6]
   \<and> to_double (audioQueueNextStartTime
         (snd (handleMessage good_env 6 audio_message streaming_service)))
       = double_plus 6 1"
proof -
  have t: "tenths = (0, tenth) # tl tenths"
    by (simp add: tenths_def)
  have h: "in_time_double (scheduleUnit_double 0 tenth fresh_service) (tl tenths)"
    by (rule tenths_run(3))
  have c: "audioQueueNextStartTime fresh_service = 0" and n: "nodes fresh_service = []"
    by (simp_all add: fresh_service_def new_service_def)
  have z: "is_double (audioQueueNextStartTime fresh_service)" "is_double 0"
    by (simp_all add: c is_double_zero)
  have p: "list_all (\<lambda>u. 0 \<le> duration (snd u)) tenths"
    by (simp add: tenths_def tenth_def)
  note facts = gapless_up_to_rounding [OF h, folded t, unfolded Let_def n list.size drop_0]
  from facts have len: "length (nodes (scheduleUnits_double fresh_service tenths)) = length tenths"
    by (rule conjunct1)
  from facts have ch: "chained (nodes (scheduleUnits_double fresh_service tenths))"
    by blast
  from facts have nb: "nearly_back_to_back (nodes (scheduleUnits_double fresh_service tenths))"
    by blast
  from facts z p have ord: "sorted (map startTime (nodes (scheduleUnits_double fresh_service tenths)))
      \<and> overlap_bounded (nodes (scheduleUnits_double fresh_service tenths))"
    by blast
  from facts have hd: "startTime (hd (nodes (scheduleUnits_double fresh_service tenths)))
      = max (audioQueueNextStartTime fresh_service) 0"
    by blast
  from facts have "\<bar>audioQueueNextStartTime (scheduleUnits_double fresh_service tenths)
        - (startTime (hd (nodes (scheduleUnits_double fresh_service tenths)))
           + sum_list (map (duration \<circ> snd) tenths))\<bar>
       \<le> sum_list (map rounding (nodes (scheduleUnits_double fresh_service tenths)))"
    by blast
  then have sp: "\<bar>audioQueueNextStartTime (scheduleUnits_double fresh_service tenths)
        - (0 + sum_list (map (duration \<circ> snd) tenths))\<bar>
       \<le> sum_list (map rounding (nodes (scheduleUnits_double fresh_service tenths)))"
    unfolding hd c by simp
  from len have l5: "length (nodes (scheduleUnits_double fresh_service tenths)) = 5"
    by (simp add: tenths_def)
  have m: "inlineData audio_message \<noteq> []"
    "decodeAudio good_env (inlineData audio_message) = Some \<lparr>duration = 1\<rparr>"
    "audioContext streaming_service \<noteq> None" "gainNode streaming_service \<noteq> None"
    "interrupted audio_message = False"
    by (simp_all add: audio_message_def good_env_def streaming_service_def)
  from facts m
  have "nodes (snd (handleMessage good_env 6 audio_message streaming_service))
        = nodes (scheduleUnit_double 6 \<lparr>duration = 1\<rparr> streaming_service)
      \<and> to_double (audioQueueNextStartTime
            (snd (handleMessage good_env 6 audio_message streaming_service)))
        = audioQueueNextStartTime (scheduleUnit_double 6 \<lparr>duration = 1\<rparr> streaming_service)"
    by blast
  then have k: "map startTime (nodes (snd (handleMessage good_env 6 audio_message streaming_service)))
        = [1, 3, 6]"
    "to_double (audioQueueNextStartTime
         (snd (handleMessage good_env 6 audio_message streaming_service)))
       = double_plus 6 1"
    by (simp_all add: scheduleUnit_double_fields streaming_service_def)
  from h z p l5 ch nb ord sp tenths_run(2) m k show ?thesis
    by simp
qed

section \<open>The references of the active sources stay valid\<close>

lemma active_valid_new_service: "active_valid (new_service cbs)"
  by (simp add: active_valid_def new_service_def)

lemma active_valid_scheduleUnit: "active_valid s \<Longrightarrow> active_valid (scheduleUnit now b s)"
  by (auto simp: active_valid_def scheduleUnit_fields list_all_iff less_Suc_eq)

lemma active_valid_source_onended: "active_valid s \<Longrightarrow> active_valid (snd (source_onended i s))"
  by (auto simp: active_valid_def source_onended_def modify_def list_all_iff dest: notin_set_remove1)

lemma active_valid_cong:
  "nodes s' = nodes s \<Longrightarrow> activeSources s' = activeSources s \<Longrightarrow> active_valid s' = active_valid s"
  by (simp add: active_valid_def)

lemma active_valid_handleMessage:
  assumes "active_valid s"
  shows "active_valid (snd (handleMessage env now message s))"
proof (cases "interrupted message")
  case True
  then show ?thesis
    by (simp add: handleMessage_run handle_interruption_run active_valid_def)
next
  case False
  let ?s1 = "before_interruption env now message s"
  have run: "snd (handleMessage env now message s) = ?s1"
    using False by (simp add: handleMessage_run handle_interruption_skip)
  from before_interruption_sched [of env now message s] have "active_valid ?s1"
  proof (elim disjE exE conjE)
    assume "nodes ?s1 = nodes s" "activeSources ?s1 = activeSources s"
    with assms show ?thesis by (simp add: active_valid_def)
  next
    fix b
    assume "nodes ?s1 = nodes (scheduleUnit now b s)"
      "activeSources ?s1 = activeSources (scheduleUnit now b s)"
    with active_valid_scheduleUnit [OF assms, of now b] show ?thesis
      by (simp add: active_valid_def)
  qed
  with run show ?thesis by simp
qed

section \<open>Teardown\<close>

lemma for_each_track_stop:
  "for_each (\<lambda>t. emit (TrackStop t)) ts s = (Normal, s\<lparr>trace := trace s @ map TrackStop ts\<rparr>)"
proof (induction ts arbitrary: s)
  case Nil
  then show ?case by (simp add: skip_def)
next
  case (Cons t ts)
  have "for_each (\<lambda>t. emit (TrackStop t)) (t # ts) s =
      for_each (\<lambda>t. emit (TrackStop t)) ts (s\<lparr>trace := trace s @ [TrackStop t]\<rparr>)"
    by (simp add: seq_def emit_run [of "TrackStop t" s])
  then show ?case
    unfolding Cons.IH by simp
qed

lemma release_input_stream_run:
  "release_input_stream s =
     (Normal, s\<lparr>inputMediaStream := None,
                trace := trace s @ (case inputMediaStream s of None \<Rightarrow> []
                                    | Some stream \<Rightarrow> map TrackStop (tracks stream))\<rparr>)"
  by (simp add: release_input_stream_def skip_def seq_def modify_def for_each_track_stop
      split: option.split)

lemma close_input_context_run:
  "close_input_context env s =
     (Normal, s\<lparr>inputAudioContext := None,
                trace := trace s @ (if inputAudioContext s \<noteq> None then [InputContextClose] else [])\<rparr>)"
  by (simp add: close_input_context_def if_then_def if_else_def skip_def seq_def try_catch_def
      throw_error_def modify_def emit_run)

lemma close_session_run:
  "close_session env s =
     (Normal, s\<lparr>session := None,
                trace := trace s @
                  (if session s \<noteq> None
                   then log_effects (callbacks s) ''Closing session...''
                        @ (if session_has_close s
                           then SessionClose #
                                (if sessionCloseFails env
                                 then [ConsoleError ''Error closing Live session''] else [])
                           else [])
                   else [])\<rparr>)"
  by (simp add: close_session_def if_then_def if_else_def skip_def seq_def try_catch_def
      throw_error_def modify_def emit_run log_msg_run session_has_close_def)

lemma close_output_context_run:
  "close_output_context env s =
     (Normal, s\<lparr>audioContext := None,
                trace := trace s @
                  (if audioContext s \<noteq> None
                   then OutputContextClose #
                        (if outputContextCloseFails env
                         then [ConsoleError ''Error closing audio context''] else [])
                   else [])\<rparr>)"
  by (simp add: close_output_context_def if_then_def if_else_def skip_def seq_def try_catch_def
      throw_error_def modify_def emit_run)

lemma disconnect_run:
  "disconnect env s =
     (Normal, s\<lparr>isConnected := False,
                nodes := mark_stopped (activeSources s) (nodes s),
                activeSources := [],
                inputMediaStream := None,
                inputAudioContext := None,
                session := None,
                audioContext := None,
                trace := trace s @ teardown_effects env s\<rparr>)"
  by (simp add: disconnect_def seq_def skip_def modify_def stop_active_sources_run
      release_input_stream_run close_input_context_run close_session_run
      close_output_context_run teardown_effects_def session_has_close_def)

lemma teardown_effects_released: "released s \<Longrightarrow> teardown_effects env s = []"
  by (simp add: released_def teardown_effects_def)

lemma disconnect_released: "released s \<Longrightarrow> disconnect env s = (Normal, s)"
  unfolding disconnect_run by (simp add: released_def teardown_effects_def)

lemma active_valid_disconnect: "active_valid (snd (disconnect env s))"
  by (simp add: disconnect_run active_valid_def)

text \<open>The segments of \<^verbatim>\<open>disconnect\<close>, and the method as the run of its segments.\<close>

lemma disconnect_prefix_run:
  "block [modify (\<lambda>s. s\<lparr>isConnected := False\<rparr>),
          stop_active_sources,
          modify (\<lambda>s. s\<lparr>activeSources := []\<rparr>),
          release_input_stream] s =
     (Normal, s\<lparr>isConnected := False,
                nodes := mark_stopped (activeSources s) (nodes s),
                activeSources := [],
                inputMediaStream := None,
                trace := trace s @ (case inputMediaStream s of None \<Rightarrow> []
                                    | Some stream \<Rightarrow> map TrackStop (tracks stream))\<rparr>)"
  by (simp add: seq_def skip_def modify_def stop_active_sources_run release_input_stream_run)

lemma disconnect_at_output_run:
  "disconnect_at_output s =
     (if audioContext s \<noteq> None
      then (Some AwaitOutputClose, s\<lparr>trace := trace s @ [OutputContextClose]\<rparr>)
      else (None, s))"
  by (simp add: disconnect_at_output_def emit_run)

lemma disconnect_at_session_run:
  "disconnect_at_session s =
     (if session s \<noteq> None
      then (let s1 = s\<lparr>trace := trace s @ log_effects (callbacks s) ''Closing session...''\<rparr>
            in if session_has_close s
               then (Some AwaitSessionClose, s1\<lparr>trace := trace s1 @ [SessionClose]\<rparr>)
               else disconnect_at_output (s1\<lparr>session := None\<rparr>))
      else disconnect_at_output s)"
  by (simp add: disconnect_at_session_def log_msg_run emit_run session_has_close_def Let_def)

lemma disconnect_at_input_run:
  "disconnect_at_input s =
     (if inputAudioContext s \<noteq> None
      then (Some AwaitInputClose, s\<lparr>trace := trace s @ [InputContextClose]\<rparr>)
      else disconnect_at_session s)"
  by (simp add: disconnect_at_input_def emit_run)

lemma disconnect_start_run:
  "disconnect_start s =
     disconnect_at_input
       (s\<lparr>isConnected := False,
          nodes := mark_stopped (activeSources s) (nodes s),
          activeSources := [],
          inputMediaStream := None,
          trace := trace s @ (case inputMediaStream s of None \<Rightarrow> []
                              | Some stream \<Rightarrow> map TrackStop (tracks stream))\<rparr>)"
  unfolding disconnect_start_def disconnect_prefix_run by simp

lemma disconnect_settled:
  "disconnect_settle env (disconnect_start s) = snd (disconnect env s)"
  by (cases "inputAudioContext s"; cases "session s"; cases "audioContext s")
     (simp_all add: disconnect_settle_def disconnect_start_run disconnect_at_input_run
        disconnect_at_session_run disconnect_at_output_run disconnect_run teardown_effects_def
        session_has_close_def emit_run Let_def)

lemma disconnect_settle_returns:
  "fst (disconnect_settle_one env (disconnect_settle_one env (disconnect_settle_one env
     (disconnect_start s)))) = None"
  by (cases "inputAudioContext s"; cases "session s"; cases "audioContext s")
     (simp_all add: disconnect_start_run disconnect_at_input_run disconnect_at_session_run
        disconnect_at_output_run session_has_close_def emit_run Let_def)

text \<open>
  No segment touches the store of nodes or \<^verbatim>\<open>activeSources\<close>, apart from the first,
  which stops the active sources and empties the list; and the output context is held
  until the method is resumed at its last await.
\<close>

lemma disconnect_at_sched:
  "nodes (snd (disconnect_at_output s)) = nodes s"
  "activeSources (snd (disconnect_at_output s)) = activeSources s"
  "nodes (snd (disconnect_at_session s)) = nodes s"
  "activeSources (snd (disconnect_at_session s)) = activeSources s"
  "nodes (snd (disconnect_at_input s)) = nodes s"
  "activeSources (snd (disconnect_at_input s)) = activeSources s"
  by (simp_all add: disconnect_at_input_run disconnect_at_session_run disconnect_at_output_run
      Let_def)

lemma disconnect_at_frame:
  "isConnected (snd (disconnect_at_input s)) = isConnected s"
  "inputMediaStream (snd (disconnect_at_input s)) = inputMediaStream s"
  "audioContext (snd (disconnect_at_input s)) = audioContext s"
  "callbacks (snd (disconnect_at_input s)) = callbacks s"
  by (simp_all add: disconnect_at_input_run disconnect_at_session_run disconnect_at_output_run
      Let_def)

lemma disconnect_start_fields:
  "isConnected (snd (disconnect_start s)) = False"
  "activeSources (snd (disconnect_start s)) = []"
  "inputMediaStream (snd (disconnect_start s)) = None"
  "nodes (snd (disconnect_start s)) = mark_stopped (activeSources s) (nodes s)"
  "audioContext (snd (disconnect_start s)) = audioContext s"
  by (simp_all add: disconnect_start_run disconnect_at_sched disconnect_at_frame)

lemma disconnect_resume_sched:
  "nodes (snd (disconnect_resume env awaited s)) = nodes s"
  "activeSources (snd (disconnect_resume env awaited s)) = activeSources s"
  by (cases awaited; simp add: disconnect_at_sched emit_run)+

lemma active_valid_disconnect_start: "active_valid (snd (disconnect_start s))"
  by (simp add: active_valid_def disconnect_start_fields)

lemma active_valid_disconnect_resume:
  "active_valid s \<Longrightarrow> active_valid (snd (disconnect_resume env awaited s))"
  by (simp add: active_valid_def disconnect_resume_sched)

text \<open>
  What the first segment adds to the trace is the start of what the whole method adds:
  the stops of the tracks, and then the first close the service has a resource for.
\<close>

lemma disconnect_start_trace:
  "trace (snd (disconnect_start s)) = trace s @ teardown_start_effects s"
  by (cases "inputAudioContext s"; cases "session s"; cases "audioContext s")
     (simp_all add: disconnect_start_run disconnect_at_input_run disconnect_at_session_run
        disconnect_at_output_run session_has_close_def teardown_start_effects_def Let_def)

lemma teardown_effects_trace:
  "teardown_effects env (s\<lparr>trace := x\<rparr>) = teardown_effects env s"
  "teardown_start_effects (s\<lparr>trace := x\<rparr>) = teardown_start_effects s"
  by (simp_all add: teardown_effects_def teardown_start_effects_def session_has_close_def)

lemma teardown_start_effects_prefix:
  "\<exists>rest. teardown_effects env s = teardown_start_effects s @ rest"
  by (cases "inputAudioContext s"; cases "session s"; cases "audioContext s")
     (simp_all add: teardown_effects_def teardown_start_effects_def session_has_close_def)

section \<open>Muting\<close>

lemma context_resume_run:
  "context_resume env s =
     (Normal, s\<lparr>audioContext := (if resumeSucceeds env
                                  then map_option (\<lambda>c. c\<lparr>ctx_state := Running\<rparr>) (audioContext s)
                                  else audioContext s),
                trace := trace s @ [ContextResume]\<rparr>)"
  by (simp add: context_resume_def if_then_def if_else_def skip_def seq_def modify_def emit_run)

lemma mute_run: "mute env now muted s = (Normal, after_mute env muted s)"
  by (simp add: mute_def after_mute_def if_then_def if_else_def skip_def seq_def modify_def
      context_resume_run context_suspended_def Let_def)

lemma active_valid_mute: "active_valid s \<Longrightarrow> active_valid (snd (mute env now muted s))"
  by (simp add: mute_run after_mute_def active_valid_def Let_def)

text \<open>
  Unmuting a service whose output context is suspended does more than set the gain: it
  calls \<^verbatim>\<open>resume\<close> on the context, which starts running when the platform allows it.
\<close>

theorem mute_resumes_suspended_context:
  "audioContext suspended_service = Some \<lparr>ctx_state = Suspended\<rparr>
   \<and> audioContext (snd (mute good_env 4 False suspended_service)) = Some \<lparr>ctx_state = Running\<rparr>
   \<and> new_effects suspended_service (snd (mute good_env 4 False suspended_service)) = [ContextResume]"
  by (simp add: mute_run after_mute_def context_suspended_def new_effects_def Let_def
      suspended_service_def streaming_service_def fresh_service_def new_service_def good_env_def)

text \<open>
  Claim C4, as the code has it. In every state, at every clock reading and for both
  arguments, \<^verbatim>\<open>mute\<close> completes without an error and leaves the cursor,
  \<^verbatim>\<open>activeSources\<close> and the store of nodes (so every start time) as they were. When
  the call mutes, or the output context is not suspended, the gain node is the only
  thing that changes. When the call unmutes and the output context is suspended, the
  call also resumes the context: the gain node, the state of the context and the trace,
  which gains the call of \<^verbatim>\<open>resume\<close>, are all that changes. The gain becomes 0 or 1
  when both the gain node and the output context exist.
\<close>

theorem mute_leaves_schedule:
  "let r = mute env now muted s; s' = snd r
   in fst r = Normal
    \<and> audioQueueNextStartTime s' = audioQueueNextStartTime s
    \<and> activeSources s' = activeSources s
    \<and> nodes s' = nodes s
    \<and> map startTime (nodes s') = map startTime (nodes s)
    \<and> (muted \<or> \<not> context_suspended s \<longrightarrow> s'\<lparr>gainNode := gainNode s\<rparr> = s)
    \<and> (\<not> muted \<and> context_suspended s \<and> gainNode s \<noteq> None \<longrightarrow>
          s'\<lparr>gainNode := gainNode s, audioContext := audioContext s, trace := trace s\<rparr> = s
          \<and> trace s' = trace s @ [ContextResume]
          \<and> map_option ctx_state (audioContext s')
              = Some (if resumeSucceeds env then Running else Suspended))
    \<and> map_option gain_value (gainNode s') =
        (if gainNode s \<noteq> None \<and> audioContext s \<noteq> None
         then Some (if muted then 0 else 1) else map_option gain_value (gainNode s))"
proof -
  let ?s' = "after_mute env muted s"
  have sched: "audioQueueNextStartTime ?s' = audioQueueNextStartTime s"
    "activeSources ?s' = activeSources s" "nodes ?s' = nodes s"
    by (simp_all add: after_mute_def Let_def)
  have only_gain: "?s'\<lparr>gainNode := gainNode s\<rparr> = s" if "muted \<or> \<not> context_suspended s"
    using that by (auto simp: after_mute_def Let_def)
  have resumed: "?s'\<lparr>gainNode := gainNode s, audioContext := audioContext s, trace := trace s\<rparr> = s
      \<and> trace ?s' = trace s @ [ContextResume]
      \<and> map_option ctx_state (audioContext ?s')
          = Some (if resumeSucceeds env then Running else Suspended)"
    if "\<not> muted \<and> context_suspended s \<and> gainNode s \<noteq> None"
    using that
    by (cases "audioContext s") (auto simp: after_mute_def context_suspended_def Let_def)
  have gain: "map_option gain_value (gainNode ?s') =
      (if gainNode s \<noteq> None \<and> audioContext s \<noteq> None
       then Some (if muted then 0 else 1) else map_option gain_value (gainNode s))"
    by (cases "gainNode s") (simp_all add: after_mute_def Let_def)
  show ?thesis
    unfolding Let_def mute_run using sched only_gain resumed gain by simp
qed

text \<open>
  The theorem at the streaming service, muted at time 4, and at the service with a
  suspended context, unmuted at time 4.
\<close>

theorem mute_leaves_schedule_witness:
  "audioQueueNextStartTime (snd (mute good_env 4 True streaming_service)) = 5
   \<and> activeSources (snd (mute good_env 4 True streaming_service)) = [1]
   \<and> map startTime (nodes (snd (mute good_env 4 True streaming_service))) = [1, 3]
   \<and> map_option gain_value (gainNode (snd (mute good_env 4 True streaming_service))) = Some 0
   \<and> (snd (mute good_env 4 True streaming_service))\<lparr>gainNode := gainNode streaming_service\<rparr>
       = streaming_service
   \<and> context_suspended suspended_service
   \<and> trace (snd (mute good_env 4 False suspended_service))
       = trace suspended_service @ [ContextResume]
   \<and> audioQueueNextStartTime (snd (mute good_env 4 False suspended_service)) = 5"
proof -
  have f: "audioQueueNextStartTime streaming_service = 5"
    "activeSources streaming_service = [1]"
    "map startTime (nodes streaming_service) = [1, 3]"
    "gainNode streaming_service \<noteq> None" "audioContext streaming_service \<noteq> None"
    by (simp_all add: streaming_service_def)
  have g: "context_suspended suspended_service" "gainNode suspended_service \<noteq> None"
    "audioQueueNextStartTime suspended_service = 5"
    by (simp_all add: suspended_service_def streaming_service_def context_suspended_def)
  from mute_leaves_schedule [of good_env 4 True streaming_service] f
  have one: "audioQueueNextStartTime (snd (mute good_env 4 True streaming_service)) = 5
   \<and> activeSources (snd (mute good_env 4 True streaming_service)) = [1]
   \<and> map startTime (nodes (snd (mute good_env 4 True streaming_service))) = [1, 3]
   \<and> map_option gain_value (gainNode (snd (mute good_env 4 True streaming_service))) = Some 0
   \<and> (snd (mute good_env 4 True streaming_service))\<lparr>gainNode := gainNode streaming_service\<rparr>
       = streaming_service"
    by (simp add: Let_def)
  from mute_leaves_schedule [of good_env 4 False suspended_service] g
  have two: "trace (snd (mute good_env 4 False suspended_service))
       = trace suspended_service @ [ContextResume]
   \<and> audioQueueNextStartTime (snd (mute good_env 4 False suspended_service)) = 5"
    by (simp add: Let_def)
  from one two g(1) show ?thesis
    by simp
qed

section \<open>Outbound audio\<close>

text \<open>
  Claim C6. When the service is not connected or has no session, the handler of an
  audio window completes and returns the state it was given: nothing is sent and nothing
  is kept, since no field changes. A later window handled while the channel is open
  sends exactly its own encoded samples, so a dropped window is never sent afterwards.
\<close>

theorem closed_channel_drops_chunk:
  assumes "\<not> isConnected s \<or> session s = None"
  shows "onaudioprocess env inputData s = (Normal, s)
       \<and> (\<forall>s2 data2. isConnected s2 \<and> session s2 \<noteq> None \<longrightarrow>
            snd (onaudioprocess env data2 s2) =
              s2\<lparr>trace := trace s2 @ [SendRealtimeInput ''audio/pcm;rate=16000'' (createPcmData data2)]\<rparr>)"
  using assms
  by (auto simp: onaudioprocess_def sendRealtimeInput_def if_then_def if_else_def skip_def seq_def
      emit_run throw_error_def)

text \<open>
  The theorem at a fresh service, which has no session; the streaming service sends the
  window.
\<close>

theorem closed_channel_drops_chunk_witness:
  "session fresh_service = None
   \<and> onaudioprocess good_env [Fin 1, Fin 0] fresh_service = (Normal, fresh_service)
   \<and> new_effects streaming_service (snd (onaudioprocess good_env [Fin 1, Fin 0] streaming_service))
       = [SendRealtimeInput ''audio/pcm;rate=16000'' (createPcmData [Fin 1, Fin 0])]"
proof -
  have n: "session fresh_service = None"
    by (simp add: fresh_service_def new_service_def)
  then have h: "\<not> isConnected fresh_service \<or> session fresh_service = None"
    by simp
  have c: "isConnected streaming_service \<and> session streaming_service \<noteq> None"
    by (simp add: streaming_service_def fresh_service_def new_service_def)
  from closed_channel_drops_chunk [OF h, of good_env "[Fin 1, Fin 0]"] c n
  show ?thesis
    by (simp add: new_effects_def)
qed

section \<open>Connecting\<close>

lemma seq_skip: "seq a skip = a"
  by (rule ext) (simp add: seq_def skip_def split: prod.split outcome.split)


lemma startAudioInput_normal: "fst (startAudioInput env s) = Normal"
  by (simp add: startAudioInput_def acquire_microphone_def create_input_context_def
      try_catch_def seq_def skip_def throw_error_def modify_def if_then_def if_else_def
      emit_run log_msg_run split: sum.split)

lemma startAudioInput_no_microphone:
  "getUserMedia env = Inl e \<Longrightarrow>
   startAudioInput env s =
     (Normal, s\<lparr>trace := trace s @ log_effects (callbacks s) microphone_notice\<rparr>)"
  by (simp add: startAudioInput_def acquire_microphone_def microphone_notice_def
      try_catch_def seq_def throw_error_def log_msg_run)

lemma startAudioInput_frame:
  "callbacks (snd (startAudioInput env s)) = callbacks s"
  "session (snd (startAudioInput env s)) = session s"
  "audioContext (snd (startAudioInput env s)) = audioContext s"
  "activeSources (snd (startAudioInput env s)) = activeSources s"
  "nodes (snd (startAudioInput env s)) = nodes s"
  "audioQueueNextStartTime (snd (startAudioInput env s)) = audioQueueNextStartTime s"
  by (simp_all add: startAudioInput_def acquire_microphone_def create_input_context_def
      try_catch_def seq_def skip_def throw_error_def modify_def if_then_def if_else_def
      emit_run log_msg_run split: sum.split)

lemma startVisualizer_run:
  "startVisualizer s = (Normal, s\<lparr>trace := trace s @ visualizer_effects s\<rparr>)"
  by (simp add: startVisualizer_def visualizer_effects_def if_then_def if_else_def skip_def emit_run)

lemma open_session_run:
  "open_session env instr s =
     (case liveConnect env of
        Inl e \<Rightarrow> (Thrown e, s\<lparr>trace := trace s @ [LiveConnect instr]\<rparr>)
      | Inr live \<Rightarrow> (Normal, s\<lparr>session := Some live, trace := trace s @ [LiveConnect instr]\<rparr>))"
  by (simp add: open_session_def seq_def skip_def emit_run throw_error_def modify_def
      split: sum.split)

lemma connect_try_run:
  "connect_try env instr s =
     (case newAudioContext env of
        Inl e \<Rightarrow> (Thrown e,
                   s\<lparr>trace := trace s @ log_effects (callbacks s) ''Initializing Audio Context...''\<rparr>)
      | Inr c \<Rightarrow> seq (open_session env instr) (startAudioInput env) (before_session c s))"
  by (simp add: connect_try_def before_session_def create_output_context_def seq_def skip_def
      throw_error_def modify_def log_msg_run startVisualizer_run visualizer_effects_def
      seq_skip split: sum.split)

lemma connect_try_throws:
  "fst (connect_try env instr s) = Thrown e \<longleftrightarrow>
     newAudioContext env = Inl e
     \<or> (\<exists>c. newAudioContext env = Inr c \<and> liveConnect env = Inl e)"
proof (cases "newAudioContext env")
  case (Inl a)
  then show ?thesis by (simp add: connect_try_run)
next
  case (Inr c)
  show ?thesis
  proof (cases "liveConnect env")
    case (Inl a)
    with Inr show ?thesis by (simp add: connect_try_run open_session_run seq_def)
  next
    case live: (Inr l)
    with Inr startAudioInput_normal show ?thesis
      by (simp add: connect_try_run open_session_run seq_def)
  qed
qed

lemma connect_try_callbacks: "callbacks (snd (connect_try env instr s)) = callbacks s"
proof (cases "newAudioContext env")
  case (Inl a)
  then show ?thesis by (simp add: connect_try_run)
next
  case (Inr c)
  show ?thesis
  proof (cases "liveConnect env")
    case (Inl a)
    with Inr show ?thesis by (simp add: connect_try_run open_session_run seq_def before_session_def)
  next
    case live: (Inr l)
    with Inr show ?thesis
      by (simp add: connect_try_run open_session_run seq_def startAudioInput_frame before_session_def)
  qed
qed

lemma connect_catch_run:
  "connect_catch env e s =
     (Normal, snd (disconnect_start
        (s\<lparr>trace := trace s @ log_effects (callbacks s) (''Connection Failed: '' @ e)
                    @ (if onError (callbacks s) then [CbError e] else [])\<rparr>)))"
  by (simp add: connect_catch_def seq_def skip_def if_then_def if_else_def unawaited_def
      log_msg_run emit_run)

lemma connect_try_sched:
  "nodes (snd (connect_try env instr s)) = nodes s"
  "activeSources (snd (connect_try env instr s)) = activeSources s"
  "audioQueueNextStartTime (snd (connect_try env instr s)) = audioQueueNextStartTime s"
proof -
  have "nodes (snd (connect_try env instr s)) = nodes s
    \<and> activeSources (snd (connect_try env instr s)) = activeSources s
    \<and> audioQueueNextStartTime (snd (connect_try env instr s)) = audioQueueNextStartTime s"
  proof (cases "newAudioContext env")
    case (Inl a)
    then show ?thesis by (simp add: connect_try_run)
  next
    case (Inr c)
    show ?thesis
    proof (cases "liveConnect env")
      case (Inl a)
      with Inr show ?thesis by (simp add: connect_try_run open_session_run seq_def before_session_def)
    next
      case live: (Inr l)
      with Inr show ?thesis
        by (simp add: connect_try_run open_session_run seq_def startAudioInput_frame before_session_def)
    qed
  qed
  then show "nodes (snd (connect_try env instr s)) = nodes s"
    "activeSources (snd (connect_try env instr s)) = activeSources s"
    "audioQueueNextStartTime (snd (connect_try env instr s)) = audioQueueNextStartTime s"
    by simp_all
qed

lemma active_valid_connect:
  assumes "active_valid s"
  shows "active_valid (snd (connect env instr s))"
proof (cases "connect_try env instr s")
  case (Pair out s1)
  show ?thesis
  proof (cases out)
    case Normal
    with Pair have "snd (connect env instr s) = snd (connect_try env instr s)"
      by (simp add: connect_def try_catch_def)
    with assms show ?thesis
      by (simp add: active_valid_def connect_try_sched)
  next
    case (Thrown e)
    with Pair show ?thesis
      by (simp add: connect_def try_catch_def connect_catch_run active_valid_disconnect_start)
  qed
qed

text \<open>
  Claim C9. Whenever the \<^verbatim>\<open>try\<close> block of \<^verbatim>\<open>connect\<close> throws an error \<open>e\<close>, leaving
  the service in state \<open>s1\<close>, \<^verbatim>\<open>connect\<close> itself completes, having logged the
  failure, invoked the error callback with \<open>e\<close> (when the caller supplied one) and then
  called \<^verbatim>\<open>disconnect\<close>, which it does not await. So \<^verbatim>\<open>connect\<close> returns in
  the state in which \<^verbatim>\<open>disconnect\<close> reaches its first await: the service is not
  connected, \<^verbatim>\<open>stop\<close> has been called on every unit that was active and the list of
  active units is empty, every track of the microphone has been stopped and the stream
  dropped, and the first close has been called; the output context, which is closed
  last, is still held then. When the closes that \<^verbatim>\<open>disconnect\<close> awaits have settled,
  with no other call on the service in between, the state is the one a whole
  \<^verbatim>\<open>disconnect\<close> leaves: the service holds nothing, a close has been issued on the
  input context, on a session with a close function and on the output context whenever
  \<open>s1\<close> held them, what was added to the trace after the failure is the log line, the
  error callback and the teardown of what \<open>s1\<close> held, in this order, and a further
  \<^verbatim>\<open>disconnect\<close> changes nothing. The lemma \<open>connect_try_throws\<close> says when the
  block throws: when the output context cannot be created or the channel cannot be
  established; \<^verbatim>\<open>startAudioInput\<close> never throws.
\<close>

theorem connect_failure_tears_down:
  assumes "connect_try env systemInstruction s = (Thrown e, s1)"
  shows "let r = connect env systemInstruction s; s' = snd r;
             report = log_effects (callbacks s) (''Connection Failed: '' @ e)
                      @ (if onError (callbacks s) then [CbError e] else []);
             reported = s1\<lparr>trace := trace s1 @ report\<rparr>;
             final = disconnect_settle env (disconnect_start reported)
         in fst r = Normal
          \<and> s' = snd (disconnect_start reported)
          \<and> new_effects s1 s' = report @ teardown_start_effects s1
          \<and> \<not> isConnected s'
          \<and> activeSources s' = []
          \<and> nodes s' = mark_stopped (activeSources s1) (nodes s1)
          \<and> (active_valid s1 \<longrightarrow> list_all (\<lambda>i. stopCalled (nodes s' ! i)) (activeSources s1))
          \<and> inputMediaStream s' = None
          \<and> (\<forall>stream. inputMediaStream s1 = Some stream \<longrightarrow>
                list_all (\<lambda>t. TrackStop t \<in> set (new_effects s1 s')) (tracks stream))
          \<and> audioContext s' = audioContext s1
          \<and> final = snd (disconnect env reported)
          \<and> released final
          \<and> nodes final = nodes s'
          \<and> new_effects s1 final = report @ teardown_effects env s1
          \<and> (inputAudioContext s1 \<noteq> None \<longrightarrow> InputContextClose \<in> set (new_effects s1 final))
          \<and> (session_has_close s1 \<longrightarrow> SessionClose \<in> set (new_effects s1 final))
          \<and> (audioContext s1 \<noteq> None \<longrightarrow> OutputContextClose \<in> set (new_effects s1 final))
          \<and> (\<forall>env'. disconnect env' final = (Normal, final))"
proof -
  have cb: "callbacks s1 = callbacks s"
    using connect_try_callbacks [of env systemInstruction s] assms by simp
  let ?report = "log_effects (callbacks s) (''Connection Failed: '' @ e)
                 @ (if onError (callbacks s) then [CbError e] else [])"
  let ?rep = "s1\<lparr>trace := trace s1 @ ?report\<rparr>"
  let ?s' = "snd (disconnect_start ?rep)"
  let ?final = "snd (disconnect env ?rep)"
  have run: "connect env systemInstruction s = (Normal, ?s')"
    by (simp add: connect_def try_catch_def assms connect_catch_run cb)
  have td: "teardown_effects env ?rep = teardown_effects env s1"
    by (rule teardown_effects_trace)
  have new: "new_effects s1 ?s' = ?report @ teardown_start_effects s1"
    by (simp add: new_effects_def disconnect_start_trace teardown_effects_trace)
  have flag: "\<not> isConnected ?s'" and act: "activeSources ?s' = []"
    and mic: "inputMediaStream ?s' = None"
    and nod: "nodes ?s' = mark_stopped (activeSources s1) (nodes s1)"
    and ctx: "audioContext ?s' = audioContext s1"
    by (simp_all add: disconnect_start_fields)
  have stopped: "list_all (\<lambda>i. stopCalled (nodes ?s' ! i)) (activeSources s1)" if "active_valid s1"
    using that unfolding nod by (simp add: active_valid_def list_all_iff mark_stopped_nth)
  have tr: "list_all (\<lambda>t. TrackStop t \<in> set (new_effects s1 ?s')) (tracks stream)"
    if "inputMediaStream s1 = Some stream" for stream
    unfolding new using that by (simp add: teardown_start_effects_def list_all_iff)
  have fin: "disconnect_settle env (disconnect_start ?rep) = ?final"
    by (rule disconnect_settled)
  have rel: "released ?final"
    by (simp add: disconnect_run released_def)
  have nodf: "nodes ?final = nodes ?s'"
    unfolding nod by (simp add: disconnect_run)
  have newf: "new_effects s1 ?final = ?report @ teardown_effects env s1"
    unfolding disconnect_run td by (simp add: new_effects_def)
  have ic: "InputContextClose \<in> set (new_effects s1 ?final)" if "inputAudioContext s1 \<noteq> None"
    unfolding newf using that by (simp add: teardown_effects_def)
  have sc: "SessionClose \<in> set (new_effects s1 ?final)" if "session_has_close s1"
    unfolding newf using that
    by (auto simp: teardown_effects_def session_has_close_def split: option.splits)
  have oc: "OutputContextClose \<in> set (new_effects s1 ?final)" if "audioContext s1 \<noteq> None"
    unfolding newf using that by (simp add: teardown_effects_def)
  have again: "disconnect env' ?final = (Normal, ?final)" for env'
    by (rule disconnect_released [OF rel])
  show ?thesis
    unfolding Let_def run fin snd_conv fst_conv
    using new flag act nod stopped mic tr ctx rel nodf newf ic sc oc again by blast
qed

text \<open>
  The theorem at the broadcasting service, on which \<^verbatim>\<open>connect\<close> is called again on
  a platform where the channel cannot be opened: the unit that was active is stopped
  when \<^verbatim>\<open>connect\<close> returns, and the new output context is released once the closes
  have settled. And at a fresh service on the same platform: \<^verbatim>\<open>connect\<close> returns
  while \<^verbatim>\<open>disconnect\<close> awaits the close of the output context, which is still
  held then and released once that close has settled.
\<close>

theorem connect_failure_tears_down_witness:
  "connect_try no_channel_env ''Narrate the feed.'' streaming_service
     = (Thrown ''Network error'', snd (connect_try no_channel_env ''Narrate the feed.'' streaming_service))
   \<and> active_valid (snd (connect_try no_channel_env ''Narrate the feed.'' streaming_service))
   \<and> activeSources (snd (connect_try no_channel_env ''Narrate the feed.'' streaming_service)) = [1]
   \<and> fst (connect no_channel_env ''Narrate the feed.'' streaming_service) = Normal
   \<and> stopCalled (nodes (snd (connect no_channel_env ''Narrate the feed.'' streaming_service)) ! 1)
   \<and> activeSources (snd (connect no_channel_env ''Narrate the feed.'' streaming_service)) = []
   \<and> inputMediaStream (snd (connect no_channel_env ''Narrate the feed.'' streaming_service)) = None
   \<and> audioContext (snd (connect no_channel_env ''Narrate the feed.'' streaming_service))
       = Some \<lparr>ctx_state = Suspended\<rparr>
   \<and> new_effects (snd (connect_try no_channel_env ''Narrate the feed.'' streaming_service))
        (snd (connect no_channel_env ''Narrate the feed.'' streaming_service))
       = [ConsoleLog ''[GeminiLive] Connection Failed: Network error'',
          CbLog ''Connection Failed: Network error'',
          CbError ''Network error'',
          TrackStop 0,
          InputContextClose]
   \<and> released (disconnect_settle no_channel_env
        (fst (disconnect_start (snd (connect_try no_channel_env ''Narrate the feed.'' streaming_service))),
         snd (connect no_channel_env ''Narrate the feed.'' streaming_service)))
   \<and> connect_try no_channel_env ''Narrate the feed.'' fresh_service
     = (Thrown ''Network error'', snd (connect_try no_channel_env ''Narrate the feed.'' fresh_service))
   \<and> audioContext (snd (connect no_channel_env ''Narrate the feed.'' fresh_service))
       = Some \<lparr>ctx_state = Suspended\<rparr>
   \<and> new_effects (snd (connect_try no_channel_env ''Narrate the feed.'' fresh_service))
        (snd (connect no_channel_env ''Narrate the feed.'' fresh_service))
       = [ConsoleLog ''[GeminiLive] Connection Failed: Network error'',
          CbLog ''Connection Failed: Network error'',
          CbError ''Network error'',
          OutputContextClose]
   \<and> released (disconnect_settle no_channel_env
        (Some AwaitOutputClose, snd (connect no_channel_env ''Narrate the feed.'' fresh_service)))"
proof -
  let ?s1 = "snd (connect_try no_channel_env ''Narrate the feed.'' streaming_service)"
  let ?s' = "snd (connect no_channel_env ''Narrate the feed.'' streaming_service)"
  let ?report = "log_effects (callbacks streaming_service) (''Connection Failed: '' @ ''Network error'')
                 @ (if onError (callbacks streaming_service) then [CbError ''Network error''] else [])"
  let ?rep = "?s1\<lparr>trace := trace ?s1 @ ?report\<rparr>"
  have e: "newAudioContext no_channel_env = Inr \<lparr>ctx_state = Suspended\<rparr>"
    "liveConnect no_channel_env = Inl ''Network error''"
    by (simp_all add: no_channel_env_def good_env_def)
  have "fst (connect_try no_channel_env ''Narrate the feed.'' streaming_service) = Thrown ''Network error''"
    unfolding connect_try_throws using e by simp
  then have h: "connect_try no_channel_env ''Narrate the feed.'' streaming_service = (Thrown ''Network error'', ?s1)"
    by (metis prod.collapse)
  have s1: "audioContext ?s1 = Some \<lparr>ctx_state = Suspended\<rparr>"
    "session ?s1 = Some \<lparr>closeIsFunction = True\<rparr>"
    "inputMediaStream ?s1 = Some \<lparr>tracks = [0]\<rparr>"
    "inputAudioContext ?s1 = Some \<lparr>ctx_state = Running\<rparr>"
    "activeSources ?s1 = [1]" "length (nodes ?s1) = 2"
    using e by (simp_all add: connect_try_run open_session_run seq_def before_session_def
        streaming_service_def fresh_service_def new_service_def)
  have v: "active_valid ?s1"
    by (simp add: active_valid_def s1)
  have cb: "callbacks streaming_service = all_callbacks"
    by (simp add: streaming_service_def fresh_service_def new_service_def)
  have ts: "teardown_start_effects ?s1 = [TrackStop 0, InputContextClose]"
    by (simp add: teardown_start_effects_def s1)
  have pt: "fst (disconnect_start ?rep) = fst (disconnect_start ?s1)"
    by (simp add: disconnect_start_run disconnect_at_input_run s1)
  note facts = connect_failure_tears_down [OF h, unfolded Let_def ts]
  from facts have ok: "fst (connect no_channel_env ''Narrate the feed.'' streaming_service) = Normal"
    by (rule conjunct1)
  from facts have eq: "?s' = snd (disconnect_start ?rep)"
    by blast
  from facts v have "list_all (\<lambda>i. stopCalled (nodes ?s' ! i)) (activeSources ?s1)"
    by blast
  then have st: "stopCalled (nodes ?s' ! 1)"
    by (simp add: s1)
  from facts have act: "activeSources ?s' = []" and mic: "inputMediaStream ?s' = None"
    by blast+
  from facts have "audioContext ?s' = audioContext ?s1"
    by blast
  then have ctx: "audioContext ?s' = Some \<lparr>ctx_state = Suspended\<rparr>"
    by (simp add: s1)
  from facts have new: "new_effects ?s1 ?s' = ?report @ [TrackStop 0, InputContextClose]"
    by blast
  from facts have "released (disconnect_settle no_channel_env (disconnect_start ?rep))"
    by blast
  then have rel: "released (disconnect_settle no_channel_env (fst (disconnect_start ?s1), ?s'))"
    unfolding eq pt [symmetric] by simp
  let ?f1 = "snd (connect_try no_channel_env ''Narrate the feed.'' fresh_service)"
  let ?f' = "snd (connect no_channel_env ''Narrate the feed.'' fresh_service)"
  let ?frep = "?f1\<lparr>trace := trace ?f1
      @ log_effects (callbacks fresh_service) (''Connection Failed: '' @ ''Network error'')
      @ (if onError (callbacks fresh_service) then [CbError ''Network error''] else [])\<rparr>"
  have "fst (connect_try no_channel_env ''Narrate the feed.'' fresh_service) = Thrown ''Network error''"
    unfolding connect_try_throws using e by simp
  then have fh: "connect_try no_channel_env ''Narrate the feed.'' fresh_service = (Thrown ''Network error'', ?f1)"
    by (metis prod.collapse)
  have f1: "audioContext ?f1 = Some \<lparr>ctx_state = Suspended\<rparr>" "session ?f1 = None"
    "inputMediaStream ?f1 = None" "inputAudioContext ?f1 = None"
    using e by (simp_all add: connect_try_run open_session_run seq_def before_session_def
        fresh_service_def new_service_def)
  have fcb: "callbacks fresh_service = all_callbacks"
    by (simp add: fresh_service_def new_service_def)
  have fts: "teardown_start_effects ?f1 = [OutputContextClose]"
    by (simp add: teardown_start_effects_def f1)
  have fpt: "fst (disconnect_start ?frep) = Some AwaitOutputClose"
    by (simp add: disconnect_start_run disconnect_at_input_run disconnect_at_session_run
        disconnect_at_output_run f1)
  note ffacts = connect_failure_tears_down [OF fh, unfolded Let_def fts]
  from ffacts have feq: "?f' = snd (disconnect_start ?frep)"
    by blast
  from ffacts have "audioContext ?f' = audioContext ?f1"
    by blast
  then have fctx: "audioContext ?f' = Some \<lparr>ctx_state = Suspended\<rparr>"
    by (simp add: f1)
  from ffacts have fnew: "new_effects ?f1 ?f'
      = (log_effects (callbacks fresh_service) (''Connection Failed: '' @ ''Network error'')
         @ (if onError (callbacks fresh_service) then [CbError ''Network error''] else []))
        @ [OutputContextClose]"
    by blast
  from ffacts have "released (disconnect_settle no_channel_env (disconnect_start ?frep))"
    by blast
  then have frel: "released (disconnect_settle no_channel_env (Some AwaitOutputClose, ?f'))"
    unfolding feq fpt [symmetric] by simp
  show ?thesis
    using h v s1(5) ok st act mic ctx rel fh fctx frel unfolding new fnew cb fcb
    by (simp add: log_effects_def all_callbacks_def)
qed


text \<open>
  Claim C7. When the output context and the session are obtained and \<^verbatim>\<open>getUserMedia\<close>
  fails, \<^verbatim>\<open>connect\<close> completes with the session and the output context in place; the
  connection flag, the active sources and the microphone fields are untouched, so the
  audio handler is never installed; nothing added to the trace is an error callback or a
  teardown; and the notice is logged to the console, and to \<^verbatim>\<open>onLog\<close> as the last
  effect when the caller supplied it.
\<close>

theorem microphone_failure_not_fatal:
  assumes "newAudioContext env = Inr c" and "liveConnect env = Inr live"
    and "getUserMedia env = Inl e"
  shows "let r = connect env systemInstruction s; s' = snd r
         in fst r = Normal
          \<and> session s' = Some live
          \<and> audioContext s' = Some c
          \<and> isConnected s' = isConnected s
          \<and> inputMediaStream s' = inputMediaStream s
          \<and> inputAudioContext s' = inputAudioContext s
          \<and> inputProcessor s' = inputProcessor s
          \<and> activeSources s' = activeSources s
          \<and> list_all (\<lambda>eff. \<not> is_error_callback eff \<and> \<not> is_teardown eff) (new_effects s s')
          \<and> ConsoleLog (''[GeminiLive] '' @ microphone_notice) \<in> set (new_effects s s')
          \<and> (onLog (callbacks s) \<longrightarrow> last (new_effects s s') = CbLog microphone_notice)"
proof -
  let ?s1 = "(before_session c s)\<lparr>session := Some live,
      trace := trace (before_session c s) @ [LiveConnect systemInstruction]\<rparr>"
  have run: "connect env systemInstruction s =
      (Normal, ?s1\<lparr>trace := trace ?s1 @ log_effects (callbacks s) microphone_notice\<rparr>)"
    using assms
    by (simp add: connect_def try_catch_def connect_try_run open_session_run seq_def
        startAudioInput_no_microphone before_session_def)
  show ?thesis
    unfolding Let_def run
    by (simp add: before_session_def new_effects_def log_effects_def)
qed


text \<open>The theorem at a fresh service on a platform where the microphone is denied.\<close>

theorem microphone_failure_not_fatal_witness:
  "newAudioContext no_microphone_env = Inr \<lparr>ctx_state = Suspended\<rparr>
   \<and> liveConnect no_microphone_env = Inr \<lparr>closeIsFunction = True\<rparr>
   \<and> getUserMedia no_microphone_env = Inl ''Permission denied''
   \<and> fst (connect no_microphone_env ''Narrate the feed.'' fresh_service) = Normal
   \<and> session (snd (connect no_microphone_env ''Narrate the feed.'' fresh_service))
       = Some \<lparr>closeIsFunction = True\<rparr>
   \<and> inputMediaStream (snd (connect no_microphone_env ''Narrate the feed.'' fresh_service)) = None
   \<and> list_all (\<lambda>eff. \<not> is_error_callback eff \<and> \<not> is_teardown eff)
        (new_effects fresh_service (snd (connect no_microphone_env ''Narrate the feed.'' fresh_service)))
   \<and> last (new_effects fresh_service
        (snd (connect no_microphone_env ''Narrate the feed.'' fresh_service)))
       = CbLog microphone_notice"
proof -
  have h: "newAudioContext no_microphone_env = Inr \<lparr>ctx_state = Suspended\<rparr>"
    "liveConnect no_microphone_env = Inr \<lparr>closeIsFunction = True\<rparr>"
    "getUserMedia no_microphone_env = Inl ''Permission denied''"
    by (simp_all add: no_microphone_env_def good_env_def)
  have f: "inputMediaStream fresh_service = None" "onLog (callbacks fresh_service)"
    by (simp_all add: fresh_service_def new_service_def all_callbacks_def)
  from microphone_failure_not_fatal [OF h, of "''Narrate the feed.''" fresh_service] h f
  show ?thesis
    by (simp add: Let_def)
qed


section \<open>Teardown and the calls that run during it\<close>

lemma request_session_run:
  "request_session env instr s =
     (case newAudioContext env of
        Inl e \<Rightarrow> (Thrown e,
                   s\<lparr>trace := trace s @ log_effects (callbacks s) ''Initializing Audio Context...''\<rparr>)
      | Inr c \<Rightarrow> (Normal, (before_session c s)\<lparr>trace := trace (before_session c s)
                                                      @ [LiveConnect instr]\<rparr>))"
  by (simp add: request_session_def before_session_def create_output_context_def seq_def skip_def
      throw_error_def modify_def log_msg_run emit_run startVisualizer_run visualizer_effects_def
      split: sum.split)

lemma try_catch_normal: "fst (a s) = Normal \<Longrightarrow> try_catch a h s = a s"
  by (cases "a s") (simp add: try_catch_def)

lemma connect_in_segments:
  assumes "newAudioContext env = Inr c" and "liveConnect env = Inr live"
  shows "connect env instr s =
     connect_microphone env (snd (connect_session env (snd (connect_begin env instr s))))"
proof -
  let ?s1 = "(before_session c s)\<lparr>trace := trace (before_session c s) @ [LiveConnect instr]\<rparr>"
  let ?s2 = "?s1\<lparr>session := Some live\<rparr>"
  have b: "connect_begin env instr s = (Normal, ?s1)"
    using assms(1) by (simp add: connect_begin_def try_catch_def request_session_run)
  have ss: "connect_session env ?s1 = (Normal, ?s2)"
    using assms(2) by (simp add: connect_session_def try_catch_def session_settled_def modify_def)
  have m: "connect_microphone env ?s2 = startAudioInput env ?s2"
    unfolding connect_microphone_def by (rule try_catch_normal) (rule startAudioInput_normal)
  have same: "(before_session c s)\<lparr>session := Some live,
      trace := trace (before_session c s) @ [LiveConnect instr]\<rparr> = ?s2"
    by simp
  have t: "connect_try env instr s = startAudioInput env ?s2"
    using assms by (simp add: connect_try_run open_session_run seq_def same)
  have "connect env instr s = startAudioInput env ?s2"
    unfolding connect_def using try_catch_normal [of "connect_try env instr" s "connect_catch env"]
    by (simp add: t startAudioInput_normal)
  then show ?thesis
    by (simp add: b ss m)
qed







section \<open>The states a service reaches\<close>

lemma sendRealtimeInput_sched:
  "nodes (snd (sendRealtimeInput env mime data s)) = nodes s"
  "activeSources (snd (sendRealtimeInput env mime data s)) = activeSources s"
  by (simp_all add: sendRealtimeInput_def seq_def skip_def if_then_def if_else_def emit_run
      throw_error_def)

lemma active_valid_onaudioprocess:
  "active_valid s \<Longrightarrow> active_valid (snd (onaudioprocess env inputData s))"
  by (simp add: onaudioprocess_def if_else_def skip_def active_valid_def sendRealtimeInput_sched)

lemma active_valid_sendVideoFrame:
  "active_valid s \<Longrightarrow> active_valid (snd (sendVideoFrame env base64Data s))"
  by (simp add: sendVideoFrame_def sendRealtimeInput_def if_else_def if_then_def skip_def
      try_catch_def seq_def emit_run throw_error_def log_msg_run active_valid_def)

lemma active_valid_session_handlers:
  "active_valid s \<Longrightarrow> active_valid (snd (session_onopen s))"
  "active_valid s \<Longrightarrow> active_valid (snd (session_onclose s))"
  "active_valid s \<Longrightarrow> active_valid (snd (session_onerror message s))"
  by (simp_all add: session_onopen_def session_onclose_def session_onerror_def seq_def skip_def
      if_then_def if_else_def modify_def emit_run log_msg_run active_valid_def)

lemma active_valid_guarded:
  assumes "active_valid s"
    and "nodes (snd (body s)) = nodes s" and "activeSources (snd (body s)) = activeSources s"
  shows "active_valid (snd (try_catch body (connect_catch env) s))"
proof (cases "body s")
  case (Pair out s1)
  show ?thesis
  proof (cases out)
    case Normal
    with Pair assms show ?thesis
      by (simp add: try_catch_def active_valid_def)
  next
    case (Thrown e)
    with Pair show ?thesis
      by (simp add: try_catch_def connect_catch_run active_valid_disconnect_start)
  qed
qed

lemma active_valid_segments:
  assumes "active_valid s"
  shows "active_valid (snd (connect_begin env instr s))"
    "active_valid (snd (connect_session env s))"
    "active_valid (snd (connect_microphone env s))"
proof -
  show "active_valid (snd (connect_begin env instr s))"
    unfolding connect_begin_def
    by (rule active_valid_guarded [OF assms])
      (simp_all add: request_session_run before_session_def split: sum.split)
  show "active_valid (snd (connect_session env s))"
    unfolding connect_session_def
    by (rule active_valid_guarded [OF assms])
      (simp_all add: session_settled_def throw_error_def modify_def split: sum.split)
  show "active_valid (snd (connect_microphone env s))"
    unfolding connect_microphone_def
    by (rule active_valid_guarded [OF assms]) (simp_all add: startAudioInput_frame)
qed

lemma active_valid_perform: "active_valid s \<Longrightarrow> active_valid (snd (perform operation s))"
  by (cases operation)
    (simp_all add: active_valid_connect active_valid_disconnect active_valid_handleMessage
      active_valid_source_onended active_valid_mute active_valid_onaudioprocess
      active_valid_sendVideoFrame active_valid_session_handlers active_valid_segments
      active_valid_disconnect_start active_valid_disconnect_resume unawaited_def)

lemma active_valid_run_ops: "active_valid s \<Longrightarrow> active_valid (run_ops s ops)"
  by (induction ops arbitrary: s) (simp_all add: active_valid_perform)

lemma reachable_active_valid: "active_valid (run_ops (new_service cbs) ops)"
  by (simp add: active_valid_run_ops active_valid_new_service)

section \<open>Interruption\<close>

text \<open>
  After an interruption handled at a clock reading that is a double, no unit of a later
  run starts before that reading when the sums of the run are rounded as the platform
  rounds them, just as when they are exact.
\<close>

lemma interruption_cursor:
  "interrupted message \<Longrightarrow> audioContext s \<noteq> None \<Longrightarrow>
   audioQueueNextStartTime (snd (handleMessage env now message s)) = now"
  by (simp add: handleMessage_run handle_interruption_run before_interruption_frame)

lemma interruption_later_rounded:
  assumes "interrupted message" and "audioContext s \<noteq> None" and "is_double now"
    and "list_all (\<lambda>u. 0 \<le> duration (snd u)) units"
  shows "\<exists>new. nodes (scheduleUnits_double (snd (handleMessage env now message s)) units)
           = nodes (snd (handleMessage env now message s)) @ new
         \<and> list_all (\<lambda>n. now \<le> startTime n) new"
  by (rule scheduleUnits_double_later [OF assms(4) assms(3)])
    (simp add: interruption_cursor [OF assms(1) assms(2)])

text \<open>
  Claim C2. A message that carries the interruption signal is handled without an error
  and leaves \<^verbatim>\<open>activeSources\<close> empty, in every state. When the references of
  \<^verbatim>\<open>activeSources\<close> point into the store, which is so in every state that the
  operations of the service reach from a new service (the last conjunct), \<^verbatim>\<open>stop\<close>
  has been called on every unit that was active, and on the unit the same message may
  have scheduled. When the output context exists, the cursor
  equals the clock reading of the step; the next unit scheduled, at whatever clock
  reading, starts at or after that time, and so does every unit of any later run of
  units with durations that are not negative.
\<close>

theorem interruption_resets_timeline:
  assumes "interrupted message"
  shows "let r = handleMessage env now message s; s' = snd r
         in fst r = Normal
          \<and> activeSources s' = []
          \<and> (active_valid s \<longrightarrow>
               list_all (\<lambda>i. i < length (nodes s') \<and> stopCalled (nodes s' ! i)) (activeSources s)
               \<and> list_all stopCalled (drop (length (nodes s)) (nodes s')))
          \<and> (audioContext s \<noteq> None \<longrightarrow>
               audioQueueNextStartTime s' = now
               \<and> (\<forall>t b. now \<le> startTime (last (nodes (scheduleUnit t b s'))))
               \<and> (\<forall>units. list_all (\<lambda>u. 0 \<le> duration (snd u)) units \<longrightarrow>
                    list_all (\<lambda>n. now \<le> startTime n)
                      (drop (length (nodes s')) (nodes (scheduleUnits s' units)))))
          \<and> (\<forall>cbs ops. active_valid (run_ops (new_service cbs) ops))"
proof -
  let ?s1 = "before_interruption env now message s"
  let ?s' = "snd (handleMessage env now message s)"
  have run: "handleMessage env now message s =
     (Normal, ?s1\<lparr>trace := trace ?s1 @ log_effects (callbacks ?s1) ''Model Interrupted.'',
                nodes := mark_stopped (activeSources ?s1) (nodes ?s1),
                activeSources := [],
                audioQueueNextStartTime :=
                  (if audioContext ?s1 \<noteq> None then now else audioQueueNextStartTime ?s1)\<rparr>)"
    unfolding handleMessage_run by (rule handle_interruption_run [OF assms])
  have out: "fst (handleMessage env now message s) = Normal"
    and act: "activeSources ?s' = []"
    and nod: "nodes ?s' = mark_stopped (activeSources ?s1) (nodes ?s1)"
    and cur: "audioContext s \<noteq> None \<Longrightarrow> audioQueueNextStartTime ?s' = now"
    unfolding run by (simp_all add: before_interruption_frame)
  have stopped: "list_all (\<lambda>i. i < length (nodes ?s') \<and> stopCalled (nodes ?s' ! i)) (activeSources s)
       \<and> list_all stopCalled (drop (length (nodes s)) (nodes ?s'))" if valid: "active_valid s"
  proof -
    from valid have v: "\<And>i. i \<in> set (activeSources s) \<Longrightarrow> i < length (nodes s)"
      by (simp add: active_valid_def list_all_iff)
    from before_interruption_sched [of env now message s]
    show ?thesis
    proof (elim disjE exE conjE)
      assume n: "nodes ?s1 = nodes s" and a: "activeSources ?s1 = activeSources s"
      show ?thesis
        unfolding nod n a
        using v by (simp add: list_all_iff mark_stopped_length mark_stopped_nth)
    next
      fix b
      assume n: "nodes ?s1 = nodes (scheduleUnit now b s)"
        and a: "activeSources ?s1 = activeSources (scheduleUnit now b s)"
      have old: "list_all (\<lambda>i. i < length (nodes ?s') \<and> stopCalled (nodes ?s' ! i)) (activeSources s)"
        unfolding nod n a
        using v by (auto simp: list_all_iff mark_stopped_length mark_stopped_nth scheduleUnit_fields
            less_Suc_eq)
      have len: "length (nodes ?s') = Suc (length (nodes s))"
        unfolding nod n by (simp add: mark_stopped_length scheduleUnit_fields)
      then have "drop (length (nodes s)) (nodes ?s') = [nodes ?s' ! length (nodes s)]"
        by (metis Cons_nth_drop_Suc drop_all lessI order_refl)
      moreover have "stopCalled (nodes ?s' ! length (nodes s))"
        unfolding nod n a by (simp add: mark_stopped_nth scheduleUnit_fields)
      ultimately show ?thesis using old by simp
    qed
  qed
  have next_unit: "now \<le> startTime (last (nodes (scheduleUnit t b ?s')))"
    if "audioContext s \<noteq> None" for t b
    using cur [OF that] by (simp add: scheduleUnit_fields)
  have later: "list_all (\<lambda>n. now \<le> startTime n)
        (drop (length (nodes ?s')) (nodes (scheduleUnits ?s' units)))"
    if "audioContext s \<noteq> None" and "list_all (\<lambda>u. 0 \<le> duration (snd u)) units" for units
    using scheduleUnits_later [OF that(2), of now ?s'] cur [OF that(1)] by simp
  show ?thesis
    unfolding Let_def using out act stopped cur next_unit later reachable_active_valid by blast
qed


text \<open>
  The theorem at the streaming service, interrupted at time 4 while unit 1 is active.
\<close>

theorem interruption_resets_timeline_witness:
  "interrupted \<lparr>inlineData = [], transcriptionText = [], interrupted = True\<rparr>
   \<and> active_valid streaming_service
   \<and> audioContext streaming_service \<noteq> None
   \<and> activeSources streaming_service = [1]
   \<and> activeSources (snd (handleMessage good_env 4
        \<lparr>inlineData = [], transcriptionText = [], interrupted = True\<rparr> streaming_service)) = []
   \<and> stopCalled (nodes (snd (handleMessage good_env 4
        \<lparr>inlineData = [], transcriptionText = [], interrupted = True\<rparr> streaming_service)) ! 1)
   \<and> audioQueueNextStartTime (snd (handleMessage good_env 4
        \<lparr>inlineData = [], transcriptionText = [], interrupted = True\<rparr> streaming_service)) = 4"
proof -
  let ?m = "\<lparr>inlineData = [], transcriptionText = [], interrupted = True\<rparr>"
  have h: "interrupted ?m"
    by simp
  have v: "active_valid streaming_service"
    and c: "audioContext streaming_service \<noteq> None"
    and a: "activeSources streaming_service = [1]"
    by (simp_all add: active_valid_def streaming_service_def fresh_service_def new_service_def)
  from interruption_resets_timeline [OF h, of good_env 4 streaming_service] v c a
  show ?thesis
    by (simp add: Let_def)
qed

section \<open>The PCM encoder\<close>

lemma clamp_sample_NaN: "clamp_sample NaN = NaN"
  by (simp add: clamp_sample_def)

lemma clamp_sample_number: "x \<noteq> NaN \<Longrightarrow> clamp_sample x = Fin (clamp_real x)"
  by (cases x) (simp_all add: clamp_sample_def clamp_real_def)

lemma clamp_real_range: "- 1 \<le> clamp_real x \<and> clamp_real x \<le> 1"
  by (cases x) (simp_all add: clamp_real_def)

lemma js_trunc_negative:
  assumes "- 1 \<le> c" and "c < 0"
  shows "- 32768 \<le> js_trunc (c * 32768) \<and> js_trunc (c * 32768) \<le> 0"
proof -
  have "- 32768 \<le> c * 32768" using assms(1) by simp
  then have lo: "- 32768 \<le> \<lceil>c * 32768\<rceil>" by linarith
  have "c * 32768 \<le> 0" using assms(2) by simp
  then have hi: "\<lceil>c * 32768\<rceil> \<le> 0" by (simp add: ceiling_le_iff)
  from assms(2) lo hi show ?thesis by (simp add: js_trunc_def)
qed

lemma js_trunc_nonnegative:
  assumes "0 \<le> c" and "c \<le> 1"
  shows "0 \<le> js_trunc (c * 32767) \<and> js_trunc (c * 32767) \<le> 32767"
proof -
  have nn: "0 \<le> c * 32767" using assms(1) by simp
  then have lo: "0 \<le> \<lfloor>c * 32767\<rfloor>" by simp
  have "c * 32767 \<le> 32767" using assms(2) by simp
  then have hi: "\<lfloor>c * 32767\<rfloor> \<le> 32767" by linarith
  from nn lo hi show ?thesis by (simp add: js_trunc_def)
qed

lemma sint_int16: "- 32768 \<le> i \<Longrightarrow> i \<le> 32767 \<Longrightarrow> sint (word_of_int i :: 16 word) = i"
  by (simp add: int_word_sint)

lemma pcm_sample_number:
  assumes "x \<noteq> NaN"
  shows "sint (pcm_sample x) =
      (if clamp_real x < 0 then js_trunc (clamp_real x * 32768) else js_trunc (clamp_real x * 32767))
    \<and> - 32768 \<le> sint (pcm_sample x) \<and> sint (pcm_sample x) \<le> 32767"
proof (cases "clamp_real x < 0")
  case True
  with clamp_real_range [of x] have b: "- 32768 \<le> js_trunc (clamp_real x * 32768)"
      "js_trunc (clamp_real x * 32768) \<le> 32767"
    using js_trunc_negative [of "clamp_real x"] by simp_all
  have "pcm_sample x = word_of_int (js_trunc (clamp_real x * 32768))"
    using True by (simp add: pcm_sample_def clamp_sample_number [OF assms])
  with b True show ?thesis by (simp add: sint_int16)
next
  case False
  with clamp_real_range [of x] have b: "- 32768 \<le> js_trunc (clamp_real x * 32767)"
      "js_trunc (clamp_real x * 32767) \<le> 32767"
    using js_trunc_nonnegative [of "clamp_real x"] by simp_all
  have "pcm_sample x = word_of_int (js_trunc (clamp_real x * 32767))"
    using False by (simp add: pcm_sample_def clamp_sample_number [OF assms])
  with b False show ?thesis by (simp add: sint_int16)
qed

lemma int16_bytes_little_endian:
  "\<exists>lo hi. int16_bytes w = [lo, hi] \<and> unat lo + 256 * unat hi = unat w"
proof -
  have lo: "unat (ucast w :: 8 word) = unat w mod 256"
    by (simp add: unsigned_ucast_eq take_bit_eq_mod)
  have "unat w < 65536"
    using unsigned_less [of w, where ?'a = nat] by simp
  then have "unat w div 256 < 256" by simp
  moreover have "unat (drop_bit 8 w) = unat w div 256"
    by (simp add: drop_bit_eq_div unat_div)
  ultimately have hi: "unat (ucast (drop_bit 8 w) :: 8 word) = unat w div 256"
    by (simp only: unsigned_ucast_eq take_bit_eq_mod) simp
  show ?thesis
    unfolding int16_bytes_def lo [symmetric] using lo hi by simp
qed

lemma pcm_boundaries:
  "pcm_sample (Fin 1) = 32767" "sint (pcm_sample (Fin (- 1))) = - 32768" "pcm_sample (Fin 0) = 0"
  "pcm_sample PosInf = 32767" "sint (pcm_sample NegInf) = - 32768"
  "pcm_sample (Fin 2) = 32767" "sint (pcm_sample (Fin (- 3))) = - 32768"
  "pcm_sample NaN = 0"
  by (simp_all add: pcm_sample_def clamp_sample_def js_trunc_def)

lemma b64_table: "\<forall>n \<in> set [0..<64]. b64_index (b64_char n) = n \<and> b64_char n \<noteq> CHR ''=''"
  by code_simp

lemma b64_index_char: "n < 64 \<Longrightarrow> b64_index (b64_char n) = n"
  using b64_table by simp

lemma b64_char_not_pad: "n < 64 \<Longrightarrow> b64_char n \<noteq> CHR ''=''"
  using b64_table by simp


lemma of_char_less: "(of_char c :: nat) < 256"
proof -
  have "(of_char c :: nat) = of_char (char_of (of_char c :: nat))"
    by (simp only: char_of_char)
  also have "\<dots> = (of_char c :: nat) mod 256"
    by (rule of_char_of)
  finally have "(of_char c :: nat) = of_char c mod 256" .
  moreover have "(of_char c :: nat) mod 256 < 256"
    by simp
  ultimately show ?thesis
    by simp
qed

lemma sextets:
  fixes x y z :: nat
  assumes "x < 256" "y < 256" "z < 256"
  shows "x div 4 < 64" "(x mod 4) * 16 + y div 16 < 64" "(y mod 16) * 4 + z div 64 < 64"
    "z mod 64 < 64" "(x mod 4) * 16 < 64" "(y mod 16) * 4 < 64"
proof -
  have "x mod 4 < 4" "y mod 16 < 16" "y div 16 < 16" "z div 64 < 4"
    using assms by simp_all
  then show "(x mod 4) * 16 + y div 16 < 64" "(y mod 16) * 4 + z div 64 < 64"
    "(x mod 4) * 16 < 64" "(y mod 16) * 4 < 64"
    by linarith+
  show "x div 4 < 64" "z mod 64 < 64"
    using assms by simp_all
qed


lemma octets:
  fixes x y z :: nat
  assumes "y < 256" "z < 256"
  shows "(x div 4) * 4 + ((x mod 4) * 16 + y div 16) div 16 = x"
    "(((x mod 4) * 16 + y div 16) mod 16) * 16 + ((y mod 16) * 4 + z div 64) div 4 = y"
    "(((y mod 16) * 4 + z div 64) mod 4) * 64 + z mod 64 = z"
    "(x div 4) * 4 + ((x mod 4) * 16) div 16 = x"
    "(((x mod 4) * 16 + y div 16) mod 16) * 16 + ((y mod 16) * 4) div 4 = y"
proof -
  have y16: "y div 16 < 16" and z64: "z div 64 < 4"
    using assms by simp_all
  have a: "((x mod 4) * 16 + y div 16) div 16 = x mod 4"
    using y16 by simp
  have b: "((x mod 4) * 16 + y div 16) mod 16 = y div 16"
    using y16 by simp
  have c: "((y mod 16) * 4 + z div 64) div 4 = y mod 16"
    using z64 by simp
  have d: "((y mod 16) * 4 + z div 64) mod 4 = z div 64"
    using z64 by simp
  show "(x div 4) * 4 + ((x mod 4) * 16 + y div 16) div 16 = x"
    unfolding a by simp
  show "(((x mod 4) * 16 + y div 16) mod 16) * 16 + ((y mod 16) * 4 + z div 64) div 4 = y"
    unfolding b c by simp
  show "(((y mod 16) * 4 + z div 64) mod 4) * 64 + z mod 64 = z"
    unfolding d by simp
  show "(x div 4) * 4 + ((x mod 4) * 16) div 16 = x"
    by simp
  show "(((x mod 4) * 16 + y div 16) mod 16) * 16 + ((y mod 16) * 4) div 4 = y"
    unfolding b by simp
qed


lemma atob_btoa: "atob (btoa bs) = bs"
proof (induction bs rule: btoa.induct)
  case 1
  show ?case by simp
next
  case (2 a)
  note b = of_char_less [of a]
  show ?case
    using sextets(1,5) [OF b b b] octets(4) [where x = "of_char a :: nat", OF b b]
    by (simp add: Let_def b64_index_char b64_char_not_pad)
next
  case (3 a b)
  note x = of_char_less [of a] and y = of_char_less [of b]
  show ?case
    using sextets(1,2,6) [OF x y y] octets(1,5) [where x = "of_char a :: nat", OF y y]
    by (simp add: Let_def b64_index_char b64_char_not_pad)
next
  case (4 a b c rest)
  note x = of_char_less [of a] and y = of_char_less [of b] and z = of_char_less [of c]
  show ?case
    using sextets(1-4) [OF x y z] octets(1,2) [where x = "of_char a :: nat", OF y z] octets(3) [OF y z] 4
    by (simp add: Let_def b64_index_char b64_char_not_pad)
qed


text \<open>
  The sample NaN is not clamped: \<^verbatim>\<open>Math.min\<close> and \<^verbatim>\<open>Math.max\<close> pass it on, neither
  scaling branch applies to a number, and the store into the \<^verbatim>\<open>Int16Array\<close> makes
  it 0.
\<close>

theorem pcm_nan_not_clamped: "clamp_sample NaN = NaN \<and> pcm_sample NaN = 0"
  by (simp add: pcm_sample_def clamp_sample_def)


text \<open>
  Claim C3, for every sample other than NaN. The clamp gives a number in \<open>[-1, 1]\<close>: the
  sample itself when it lies in that range, the nearer end of the range otherwise. The
  stored 16-bit integer is the integer part (towards zero) of the clamped value times
  32768 when that value is negative and times 32767 otherwise, and lies in
  \<open>[-32768, 32767]\<close>, so the store never wraps. The samples 1, -1 and 0 give 32767,
  -32768 and 0. The result of \<^verbatim>\<open>createPcmData\<close> is the base64 text of the bytes of
  these integers, two per sample with the low byte first, and decoding it gives these
  bytes back.
\<close>

theorem pcm_encoder_mapping:
  assumes "x \<noteq> NaN"
  shows "clamp_sample x = Fin (clamp_real x)
       \<and> - 1 \<le> clamp_real x \<and> clamp_real x \<le> 1
       \<and> (\<forall>v. - 1 \<le> v \<and> v \<le> 1 \<longrightarrow> clamp_real (Fin v) = v)
       \<and> sint (pcm_sample x) =
           (if clamp_real x < 0 then js_trunc (clamp_real x * 32768)
            else js_trunc (clamp_real x * 32767))
       \<and> - 32768 \<le> sint (pcm_sample x) \<and> sint (pcm_sample x) \<le> 32767
       \<and> sint (pcm_sample (Fin 1)) = 32767
       \<and> sint (pcm_sample (Fin (- 1))) = - 32768
       \<and> sint (pcm_sample (Fin 0)) = 0
       \<and> createPcmData data =
           btoa (map (\<lambda>b. char_of (unat b)) (concat (map (\<lambda>y. int16_bytes (pcm_sample y)) data)))
       \<and> (\<forall>w. \<exists>lo hi. int16_bytes w = [lo, hi] \<and> unat lo + 256 * unat hi = unat w)
       \<and> atob (createPcmData data) =
           map (\<lambda>b. char_of (unat b)) (concat (map (\<lambda>y. int16_bytes (pcm_sample y)) data))"
proof -
  have range: "\<forall>v. - 1 \<le> v \<and> v \<le> 1 \<longrightarrow> clamp_real (Fin v) = v"
    by (simp add: clamp_real_def)
  have bounds: "sint (pcm_sample (Fin 1)) = 32767" "sint (pcm_sample (Fin (- 1))) = - 32768"
    "sint (pcm_sample (Fin 0)) = 0"
    by (simp_all add: pcm_boundaries)
  have enc: "createPcmData data =
      btoa (map (\<lambda>b. char_of (unat b)) (concat (map (\<lambda>y. int16_bytes (pcm_sample y)) data)))"
    by (simp add: createPcmData_def Let_def comp_def)
  have dec: "atob (createPcmData data) =
      map (\<lambda>b. char_of (unat b)) (concat (map (\<lambda>y. int16_bytes (pcm_sample y)) data))"
    unfolding enc by (rule atob_btoa)
  from clamp_sample_number [OF assms] clamp_real_range [of x] range pcm_sample_number [OF assms]
    bounds enc dec int16_bytes_little_endian
  show ?thesis
    by blast
qed

text \<open>
  The theorem at the sample one half, which is stored as 16383, the integer part of
  16383.5.
\<close>

theorem pcm_encoder_mapping_witness:
  "Fin (1 / 2) \<noteq> NaN
   \<and> clamp_sample (Fin (1 / 2)) = Fin (1 / 2)
   \<and> sint (pcm_sample (Fin (1 / 2))) = 16383"
proof -
  have h: "Fin (1 / 2) \<noteq> NaN"
    by simp
  have c: "clamp_real (Fin (1 / 2)) = 1 / 2"
    by (simp add: clamp_real_def)
  from pcm_encoder_mapping [OF h] have "clamp_sample (Fin (1 / 2)) = Fin (clamp_real (Fin (1 / 2)))"
    and "sint (pcm_sample (Fin (1 / 2))) =
           (if clamp_real (Fin (1 / 2)) < 0 then js_trunc (clamp_real (Fin (1 / 2)) * 32768)
            else js_trunc (clamp_real (Fin (1 / 2)) * 32767))"
    by blast+
  then show ?thesis
    unfolding c by (simp add: js_trunc_def)
qed

section \<open>The video frame sampler\<close>

text \<open>
  Two firings of the interval with no frame arriving in between leave two captures
  running: the second firing is not skipped.
\<close>

theorem sampler_two_captures_in_flight:
  "capturing (sampler_run running_sampler [Tick, Tick]) = [0, 1]
   \<and> \<not> length (capturing (sampler_run running_sampler [Tick, Tick])) \<le> 1"
  by (simp add: running_sampler_def ready_player_def timer_tick_def getFrame_def Let_def)

lemma timer_tick_ready:
  assumes "frameIntervalRef f" "videoRef f = Some v" "liveServiceRef f" "getFrame v = AwaitingBlob"
  shows "timer_tick f = f\<lparr>ticks := Suc (ticks f), capturing := capturing f @ [ticks f]\<rparr>"
  using assms by (simp add: timer_tick_def Let_def)

text \<open>
  Claim C8, as the code has it. The sampler has no guard on running captures: while the
  interval is set, the two refs are set and \<^verbatim>\<open>getFrame\<close> gets as far as
  \<^verbatim>\<open>canvas.toBlob\<close>, a firing of the interval starts a capture of its own whatever
  captures are still running, and \<open>k\<close> firings with no frame arriving in between add
  \<open>k\<close> running captures.
\<close>

theorem every_tick_starts_a_capture:
  assumes "frameIntervalRef f" and "videoRef f = Some v" and "liveServiceRef f"
    and "getFrame v = AwaitingBlob"
  shows "capturing (timer_tick f) = capturing f @ [ticks f]
       \<and> capturing (sampler_run f (replicate k Tick)) = capturing f @ [ticks f ..< ticks f + k]"
proof -
  have one: "capturing (timer_tick f) = capturing f @ [ticks f]"
    by (simp add: timer_tick_ready [OF assms])
  have many: "capturing (sampler_run g (replicate k Tick)) = capturing g @ [ticks g ..< ticks g + k]"
    if "frameIntervalRef g" "videoRef g = Some v" "liveServiceRef g" for g
    using that
  proof (induction k arbitrary: g)
    case 0
    then show ?case by simp
  next
    case (Suc k)
    let ?g = "g\<lparr>ticks := Suc (ticks g), capturing := capturing g @ [ticks g]\<rparr>"
    have t: "timer_tick g = ?g"
      by (rule timer_tick_ready [OF Suc.prems assms(4)])
    have IH: "capturing (sampler_run ?g (replicate k Tick)) = capturing ?g @ [ticks ?g ..< ticks ?g + k]"
      by (rule Suc.IH) (simp_all add: Suc.prems)
    have u: "[ticks g ..< ticks g + Suc k] = ticks g # [Suc (ticks g) ..< Suc (ticks g) + k]"
      by (simp add: upt_conv_Cons)
    have "sampler_run g (replicate (Suc k) Tick) = sampler_run ?g (replicate k Tick)"
      by (simp add: t)
    then show ?case
      unfolding u using IH by simp
  qed
  from one many [OF assms(1-3)] show ?thesis by simp
qed

text \<open>The theorem at the running sampler: three firings, three running captures.\<close>

theorem every_tick_starts_a_capture_witness:
  "frameIntervalRef running_sampler \<and> videoRef running_sampler = Some ready_player
   \<and> liveServiceRef running_sampler \<and> getFrame ready_player = AwaitingBlob
   \<and> capturing (sampler_run running_sampler (replicate 3 Tick)) = [0, 1, 2]"
proof -
  have h: "frameIntervalRef running_sampler" "videoRef running_sampler = Some ready_player"
    "liveServiceRef running_sampler" "getFrame ready_player = AwaitingBlob"
    by (simp_all add: running_sampler_def ready_player_def getFrame_def)
  have c: "capturing running_sampler = []" "ticks running_sampler = 0"
    by (simp_all add: running_sampler_def)
  have u: "[0 ..< 3] = [0, 1, 2::nat]"
    by (simp add: upt_rec)
  from every_tick_starts_a_capture [OF h, of 3] h show ?thesis
    by (simp add: c u)
qed


end
